theory Spec2Isabelle
  imports
    Complex_Main
    "HOL-Library.Stream"
    "HOL-Library.FSet"
    "HOL-Library.List_Lexorder"
    "HOL-Library.Sublist"
begin

section \<open>Strings\<close>

text \<open>
  A Python \<open>str\<close> is a sequence of Unicode code points; \<open>len\<close> counts code points and
  \<open>a in b\<close> is the contiguous-sublist test \<^const>\<open>sublist\<close>. ASCII literals of the source are
  written \<open>ascii ''...''\<close>.
\<close>

type_synonym pystr = "nat list"

definition ascii :: "string \<Rightarrow> pystr" where
  "ascii s = map of_char s"

text \<open>
  \<open>str.lower\<close>, code point by code point: Basic Latin and Latin-1 capitals, the Cyrillic
  capitals U+0400..U+042F, the Kelvin sign (whose lower case is \<open>k\<close>) and the dotted capital
  I (whose lower case is \<open>i\<close> followed by U+0307). These are all the code points whose lower
  case contains a character of one of the block indicators below; every other code point
  is left as it is, which does not change any \<open>indicator in text_lower\<close> test.
\<close>

definition lower_cp :: "nat \<Rightarrow> nat list" where
  "lower_cp c =
     (if 65 \<le> c \<and> c \<le> 90 then [c + 32]
      else if 192 \<le> c \<and> c \<le> 222 \<and> c \<noteq> 215 then [c + 32]
      else if c = 304 then [105, 775]
      else if 1024 \<le> c \<and> c \<le> 1039 then [c + 80]
      else if 1040 \<le> c \<and> c \<le> 1071 then [c + 32]
      else if c = 8490 then [107]
      else [c])"

definition lower :: "pystr \<Rightarrow> pystr" where
  "lower s = concat (map lower_cp s)"

text \<open>\<open>str(n)\<close> for an integer: decimal digits, with a minus sign for a negative number.\<close>

fun digits :: "nat \<Rightarrow> pystr" where
  "digits n = (if n < 10 then [48 + n] else digits (n div 10) @ [48 + n mod 10])"

declare digits.simps [simp del]

definition str_of_int :: "int \<Rightarrow> pystr" where
  "str_of_int i = (if i < 0 then 45 # digits (nat (- i)) else digits (nat i))"

section \<open>Configuration (config.py, class Config)\<close>

text \<open>
  The fields the crawl engine reads. \<open>USER_AGENTS\<close> and the two selector tables are used only
  to build request headers and inside the HTML extractors, which are parameters of this
  model, so they are not fields here. \<open>TIMEOUT\<close> is optional because \<open>__init__\<close> tests
  \<open>hasattr(self.config, 'TIMEOUT')\<close>.
\<close>

record config =
  BASE_URL :: pystr
  MAX_PAGES :: int
  OUTPUT_FILE :: pystr
  PROGRESS_FILE :: pystr
  DELAY_MIN :: real
  DELAY_MAX :: real
  DELAY_BETWEEN_PAGES_MIN :: real
  DELAY_BETWEEN_PAGES_MAX :: real
  DELAY_BETWEEN_HOTELS_MIN :: real
  DELAY_BETWEEN_HOTELS_MAX :: real
  DELAY_AFTER_BLOCK :: real
  MAX_RETRIES :: int
  TIMEOUT :: "real option"
  MAX_HOTELS_PER_PAGE :: int
  MAX_REVIEWS_PER_HOTEL :: int

text \<open>\<open>Config._set_defaults\<close>.\<close>

definition set_defaults :: config where
  "set_defaults =
     \<lparr> BASE_URL = ascii ''https://otzovik.com/travel/hotels/'',
       MAX_PAGES = 1462,
       OUTPUT_FILE = ascii ''otzovik_reviews.csv'',
       PROGRESS_FILE = ascii ''progress.json'',
       DELAY_MIN = 8,
       DELAY_MAX = 15,
       DELAY_BETWEEN_PAGES_MIN = 5,
       DELAY_BETWEEN_PAGES_MAX = 10,
       DELAY_BETWEEN_HOTELS_MIN = 3,
       DELAY_BETWEEN_HOTELS_MAX = 7,
       DELAY_AFTER_BLOCK = 60,
       MAX_RETRIES = 3,
       TIMEOUT = Some 30,
       MAX_HOTELS_PER_PAGE = 20,
       MAX_REVIEWS_PER_HOTEL = 50 \<rparr>"

section \<open>HTTP responses and block detection\<close>

text \<open>
  What the code reads of a \<open>requests.Response\<close>: the status code, the decoded body
  \<open>response.text\<close> (field \<open>body\<close>) and \<open>headers.get('Content-Type')\<close>.
\<close>

record response =
  status_code :: int
  body :: pystr
  content_type :: "pystr option"

text \<open>
  The truth value of a response object. \<open>requests.Response.__bool__\<close> returns \<open>self.ok\<close>,
  which is false exactly when \<open>raise_for_status\<close> raises, that is for a status code from 400
  to 599. This decides the first test of \<open>_is_blocked_response\<close>.
\<close>

definition truthy :: "response \<Rightarrow> bool" where
  "truthy r = (\<not> (400 \<le> status_code r \<and> status_code r < 600))"

definition block_indicators :: "pystr list" where
  "block_indicators =
     [ascii ''captcha'', ascii ''recaptcha'', ascii ''cloudflare'',
      [1076, 1086, 1089, 1090, 1091, 1087, 32, 1086, 1075, 1088, 1072, 1085, 1080, 1095, 1077, 1085],
      ascii ''your access has been blocked'', ascii ''blocked'', ascii ''403 forbidden'',
      ascii ''too many requests'', ascii ''rate limit exceeded'']"

text \<open>\<open>any(indicator in text_lower for indicator in block_indicators)\<close>.\<close>

definition has_block_indicator :: "pystr \<Rightarrow> bool" where
  "has_block_indicator txt =
     (let text_lower = lower txt
      in list_ex (\<lambda>indicator. sublist indicator text_lower) block_indicators)"

definition content_marker :: pystr where
  "content_marker = ascii ''product-list''"

text \<open>\<open>OtzyovikParser._is_blocked_response\<close>.\<close>

definition is_blocked_response :: "response \<Rightarrow> bool" where
  "is_blocked_response r =
     (if \<not> truthy r then False
      else if status_code r \<in> {403, 429, 503} then True
      else if body r \<noteq> [] then
        (if has_block_indicator (body r) then True
         else if length (body r) < 1000 \<and> \<not> sublist content_marker (body r) then True
         else False)
      else False)"

section \<open>Crawl state and the world around it\<close>

text \<open>
  A review and a hotel are Python dictionaries. A hotel always has the seven keys that
  \<open>parse_list_page\<close> writes, so it is a record (\<open>id\<close> is named \<open>hotel_id\<close>). A review is kept
  as a dictionary, a list of key-value pairs read with \<^const>\<open>map_of\<close>, because
  \<open>_save_results\<close> tests whether the key \<open>review_id\<close> occurs at all.
\<close>

datatype pyval = PNone | PBool bool | PInt int | PFloat real | PStr pystr

type_synonym review = "(pystr \<times> pyval) list"

record hotel =
  hotel_id :: pystr
  name :: pystr
  url :: pystr
  reviews_count :: int
  hotel_rating :: pystr
  list_page :: int
  list_url :: pystr

text \<open>
  The two HTML extractors \<open>parse_list_page(html, page_num, page_url)\<close> and
  \<open>parse_hotel_page(html, hotel_data)\<close> run BeautifulSoup selectors over the page; they are
  parameters of the model.
\<close>

record extractors =
  parse_list_page :: "pystr \<Rightarrow> int \<Rightarrow> pystr \<Rightarrow> hotel list"
  parse_hotel_page :: "pystr \<Rightarrow> hotel \<Rightarrow> review list"

text \<open>
  What one call of \<open>session.get\<close> does: it returns a response, or raises
  \<open>requests.exceptions.Timeout\<close>, or raises another \<open>RequestException\<close>.
\<close>

datatype event = Response response | Timeout | Request_error

text \<open>
  The observable actions of the crawl, in program order: \<open>Get url referer\<close> is one HTTP
  request (with the \<open>referer\<close> argument of \<open>make_request\<close>), \<open>Sleep d\<close> is \<open>time.sleep(d)\<close>,
  \<open>Sleep_uniform a b\<close> is \<open>time.sleep(random.uniform(a, b))\<close>, \<open>Sleep_uniform_positive a b\<close> is
  the same sleep guarded by \<open>if delay > 0\<close>, and \<open>Rotate_user_agent\<close> is the assignment of a
  freshly drawn User-Agent header.
\<close>

datatype effect =
    Get pystr "pystr option"
  | Sleep real
  | Sleep_uniform real real
  | Sleep_uniform_positive real real
  | Rotate_user_agent

text \<open>
  The JSON object of the progress file. The five keys that \<open>_load_progress\<close> reads with
  \<open>data.get(key, default)\<close> are optional; a value, when present, has the type that
  \<open>_save_progress\<close> writes.
\<close>

record delays_config =
  dc_DELAY_MIN :: real
  dc_DELAY_MAX :: real
  dc_DELAY_BETWEEN_HOTELS_MIN :: real
  dc_DELAY_BETWEEN_HOTELS_MAX :: real
  dc_DELAY_BETWEEN_PAGES_MIN :: real
  dc_DELAY_BETWEEN_PAGES_MAX :: real
  dc_DELAY_AFTER_BLOCK :: real

record checkpoint =
  cp_processed_hotels :: "pystr list option"
  cp_processed_pages :: "int list option"
  cp_results :: "review list option"
  cp_total_requests :: "int option"
  cp_blocked_count :: "int option"
  cp_last_updated :: "real option"
  cp_parser_version :: "pystr option"
  cp_delays_config :: "delays_config option"

text \<open>
  The content of a file: a progress document, a table of review rows (the CSV and JSON
  exports), or \<open>Not_json\<close>, any text that \<open>json.load\<close> rejects. The empty file that
  \<open>open(path, 'w')\<close> leaves behind and a partly written document are \<open>Not_json\<close>.
\<close>

datatype content = Not_json | Checkpoint checkpoint | Table "review list"

text \<open>
  The parser object with the world it acts on. \<open>net\<close> holds the outcomes of the HTTP requests
  still to come, in the order they will be issued; \<open>clock\<close> holds the readings of the system
  clock still to come, in seconds; \<open>files\<close> is the file system; \<open>trace\<close> is the list of
  actions done so far. The two Python sets are finite sets.
\<close>

record parser =
  config :: config
  results :: "review list"
  processed_hotels :: "pystr fset"
  processed_pages :: "int fset"
  total_requests :: int
  blocked_count :: int
  net :: "event stream"
  clock :: "real stream"
  files :: "pystr \<Rightarrow> content option"
  trace :: "effect list"

text \<open>A call either returns a value or raises; the state it leaves is kept beside it.\<close>

datatype exn = TypeError

datatype 'a outcome = Return 'a | Raise exn

section \<open>Checkpoint: \<open>_save_progress\<close> and \<open>_load_progress\<close>\<close>

text \<open>The primitive file operations of a save: \<open>open(path, 'w')\<close> and \<open>json.dump(data, f)\<close>.\<close>

datatype file_op = Open_w pystr | Json_dump pystr checkpoint

fun apply_op :: "(pystr \<Rightarrow> content option) \<Rightarrow> file_op \<Rightarrow> (pystr \<Rightarrow> content option)" where
  "apply_op fs (Open_w path) = fs(path \<mapsto> Not_json)"
| "apply_op fs (Json_dump path data) = fs(path \<mapsto> Checkpoint data)"

text \<open>
  The dictionary \<open>data\<close> built by \<open>_save_progress\<close>; \<open>list(set)\<close> enumerates a set in an
  order Python leaves open, here the sorted one. \<open>now\<close> is the reading behind
  \<open>datetime.now().isoformat()\<close>.
\<close>

definition progress_data :: "parser \<Rightarrow> real \<Rightarrow> checkpoint" where
  "progress_data p now =
     \<lparr> cp_processed_hotels = Some (sorted_list_of_fset (processed_hotels p)),
       cp_processed_pages = Some (sorted_list_of_fset (processed_pages p)),
       cp_results = Some (results p),
       cp_total_requests = Some (total_requests p),
       cp_blocked_count = Some (blocked_count p),
       cp_last_updated = Some now,
       cp_parser_version = Some (ascii ''3.2''),
       cp_delays_config = Some
         \<lparr> dc_DELAY_MIN = DELAY_MIN (config p),
           dc_DELAY_MAX = DELAY_MAX (config p),
           dc_DELAY_BETWEEN_HOTELS_MIN = DELAY_BETWEEN_HOTELS_MIN (config p),
           dc_DELAY_BETWEEN_HOTELS_MAX = DELAY_BETWEEN_HOTELS_MAX (config p),
           dc_DELAY_BETWEEN_PAGES_MIN = DELAY_BETWEEN_PAGES_MIN (config p),
           dc_DELAY_BETWEEN_PAGES_MAX = DELAY_BETWEEN_PAGES_MAX (config p),
           dc_DELAY_AFTER_BLOCK = DELAY_AFTER_BLOCK (config p) \<rparr> \<rparr>"

text \<open>\<open>f"data/progress_backup_{int(time.time())}.json"\<close>.\<close>

definition backup_file :: "real \<Rightarrow> pystr" where
  "backup_file t = ascii ''data/progress_backup_'' @ str_of_int (\<lfloor>t\<rfloor>) @ ascii ''.json''"

text \<open>
  The file operations of one \<open>_save_progress\<close>, in program order: the progress file is
  opened for writing (which empties it) and the document is dumped into it, then the same
  is done for the backup file. The first clock reading is \<open>datetime.now()\<close>, the second is
  \<open>time.time()\<close>.
\<close>

definition save_progress_ops :: "parser \<Rightarrow> file_op list" where
  "save_progress_ops p =
     (let data = progress_data p (shd (clock p));
          backup = backup_file (shd (stl (clock p)))
      in [Open_w (PROGRESS_FILE (config p)), Json_dump (PROGRESS_FILE (config p)) data,
          Open_w backup, Json_dump backup data])"

text \<open>
  \<open>OtzyovikParser._save_progress\<close>, run to its end. The file system of the model accepts
  every write, so the \<open>except\<close> branch, which only logs, is not entered.
\<close>

definition save_progress :: "parser \<Rightarrow> parser" where
  "save_progress p =
     p\<lparr> files := foldl apply_op (files p) (save_progress_ops p),
        clock := stl (stl (clock p)) \<rparr>"

text \<open>
  A save that the process does not survive: only the first \<open>k\<close> file operations happen.
\<close>

definition save_progress_interrupted :: "nat \<Rightarrow> parser \<Rightarrow> parser" where
  "save_progress_interrupted k p =
     p\<lparr> files := foldl apply_op (files p) (take k (save_progress_ops p)),
        clock := stl (stl (clock p)) \<rparr>"

text \<open>
  \<open>OtzyovikParser._load_progress\<close>. A missing file leaves the state as it is; a file that is
  not a JSON object makes \<open>json.load\<close> or \<open>data.get\<close> raise, which the \<open>except\<close> branch logs,
  leaving the state as it is.
\<close>

definition get_default :: "'a option \<Rightarrow> 'a \<Rightarrow> 'a" where
  "get_default v d = (case v of None \<Rightarrow> d | Some x \<Rightarrow> x)"

definition load_progress :: "parser \<Rightarrow> parser" where
  "load_progress p =
     (case files p (PROGRESS_FILE (config p)) of
        None \<Rightarrow> p
      | Some (Checkpoint data) \<Rightarrow>
          p\<lparr> processed_hotels := fset_of_list (get_default (cp_processed_hotels data) []),
             processed_pages := fset_of_list (get_default (cp_processed_pages data) []),
             results := get_default (cp_results data) [],
             total_requests := get_default (cp_total_requests data) 0,
             blocked_count := get_default (cp_blocked_count data) 0 \<rparr>
      | Some _ \<Rightarrow> p)"

section \<open>Result export: \<open>_save_results\<close>\<close>

text \<open>
  \<open>df.drop_duplicates(subset=['review_id'], keep='last')\<close>: a row stays when no later row
  has the same value under \<open>review_id\<close>; the rows that stay keep their order. A row without
  the key has a missing value there, and missing values count as equal to each other.
  The identifiers that \<open>parse_hotel_page\<close> writes are strings, and two strings are the same
  value exactly when they are equal.
\<close>

definition review_id :: "review \<Rightarrow> pyval option" where
  "review_id r = map_of r (ascii ''review_id'')"

fun drop_duplicates_last :: "review list \<Rightarrow> review list" where
  "drop_duplicates_last [] = []"
| "drop_duplicates_last (r # rs) =
     (if review_id r \<in> set (map review_id rs) then drop_duplicates_last rs
      else r # drop_duplicates_last rs)"

text \<open>\<open>'review_id' in df.columns\<close>: some row has the key.\<close>

definition has_review_id_column :: "review list \<Rightarrow> bool" where
  "has_review_id_column rs = list_ex (\<lambda>r. review_id r \<noteq> None) rs"

text \<open>\<open>s.replace(old, new)\<close> for a non-empty \<open>old\<close>.\<close>

function str_replace :: "pystr \<Rightarrow> pystr \<Rightarrow> pystr \<Rightarrow> pystr" where
  "str_replace old new [] = []"
| "str_replace old new (c # cs) =
     (if old \<noteq> [] \<and> prefix old (c # cs)
      then new @ str_replace old new (drop (length old) (c # cs))
      else c # str_replace old new cs)"
  by pat_completeness auto
termination
  by (relation "measure (\<lambda>(old, new, s). length s)") auto

text \<open>The rows that \<open>_save_results\<close> writes: the data frame after the duplicate removal.\<close>

definition deduplicated :: "review list \<Rightarrow> review list" where
  "deduplicated rs = (if has_review_id_column rs then drop_duplicates_last rs else rs)"

text \<open>
  \<open>OtzyovikParser._save_results\<close>: nothing is written for an empty result list; otherwise the
  rows go to the CSV file and then to the JSON file beside it. The statistics computed in
  between are only logged.
\<close>

definition save_results :: "parser \<Rightarrow> parser" where
  "save_results p =
     (if results p = [] then p
      else
        (let df = deduplicated (results p);
             csv_path = OUTPUT_FILE (config p);
             json_path = str_replace (ascii ''.csv'') (ascii ''.json'') csv_path
         in p\<lparr> files := (files p)(csv_path \<mapsto> Table df, json_path \<mapsto> Table df) \<rparr>))"

section \<open>Fetching: \<open>make_request\<close>\<close>

text \<open>
  Sleeps and the draw of a User-Agent are recorded as actions. \<open>time.sleep\<close> rejects a
  negative duration and \<open>random.choice\<close> an empty list; neither occurs for a parser built by
  \<open>__init__\<close>, which has drawn from the User-Agent list once already and sets every delay
  to a positive constant, so the model has no branch for them.
\<close>

definition time_sleep :: "real \<Rightarrow> parser \<Rightarrow> parser" where
  "time_sleep d p = p\<lparr> trace := trace p @ [Sleep d] \<rparr>"

text \<open>\<open>_random_delay()\<close>, called without arguments: the bounds are the configured ones.\<close>

definition random_delay :: "parser \<Rightarrow> parser" where
  "random_delay p =
     p\<lparr> trace := trace p @ [Sleep_uniform (DELAY_MIN (config p)) (DELAY_MAX (config p))] \<rparr>"

definition rotate_user_agent :: "parser \<Rightarrow> parser" where
  "rotate_user_agent p = p\<lparr> trace := trace p @ [Rotate_user_agent] \<rparr>"

text \<open>
  \<open>self.session.get(url, timeout=...)\<close>: the request is recorded and the next outcome of the
  network is consumed.
\<close>

definition session_get :: "pystr \<Rightarrow> pystr option \<Rightarrow> parser \<Rightarrow> parser" where
  "session_get u referer p = p\<lparr> net := stl (net p), trace := trace p @ [Get u referer] \<rparr>"

text \<open>\<open>'text/html' in response.headers.get('Content-Type', '') and len(response.text) > 1000\<close>.\<close>

definition valid_html :: "response \<Rightarrow> bool" where
  "valid_html r =
     (sublist (ascii ''text/html'') (get_default (content_type r) []) \<and> length (body r) > 1000)"

text \<open>
  \<open>OtzyovikParser.make_request(url, referer, retry_count)\<close>. The result is the returned
  value (\<open>None\<close> or the page text) with the state after the call. The recursion of the source
  is kept; it ends because \<open>retry_count\<close> grows towards \<open>MAX_RETRIES\<close>.
\<close>

function make_request :: "pystr \<Rightarrow> pystr option \<Rightarrow> nat \<Rightarrow> parser \<Rightarrow> pystr option \<times> parser" where
  "make_request u referer retry_count p =
     (let p0 = random_delay (p\<lparr> total_requests := total_requests p + 1 \<rparr>);
          p1 = session_get u referer p0
      in case shd (net p0) of
           Response r \<Rightarrow>
             if is_blocked_response r then
               (let p2 = p1\<lparr> blocked_count := blocked_count p1 + 1 \<rparr>
                in if int retry_count < MAX_RETRIES (config p) then
                     make_request u referer (retry_count + 1)
                       (rotate_user_agent
                         (time_sleep (DELAY_AFTER_BLOCK (config p) * (real retry_count + 1)) p2))
                   else (None, p2))
             else if status_code r = 200 then
               (if valid_html r then (Some (body r), p1) else (None, p1))
             else if status_code r = 404 then (None, p1)
             else (None, p1)
         | Timeout \<Rightarrow>
             if int retry_count < MAX_RETRIES (config p) then
               make_request u referer (retry_count + 1)
                 (time_sleep (2 * (real retry_count + 1)) p1)
             else (None, p1)
         | Request_error \<Rightarrow>
             if int retry_count < MAX_RETRIES (config p) then
               make_request u referer (retry_count + 1)
                 (time_sleep (1 * (real retry_count + 1)) p1)
             else (None, p1))"
  by pat_completeness auto
termination
  by (relation "measure (\<lambda>(u, referer, retry_count, p). nat (MAX_RETRIES (config p) - int retry_count))")
     (auto simp: time_sleep_def rotate_user_agent_def session_get_def random_delay_def)

declare make_request.simps [simp del]

section \<open>Page traversal: \<open>scrape_page\<close>\<close>

text \<open>\<open>get_list_page_url\<close>.\<close>

definition get_list_page_url :: "parser \<Rightarrow> int \<Rightarrow> pystr" where
  "get_list_page_url p page_num =
     (if page_num = 1 then BASE_URL (config p)
      else BASE_URL (config p) @ str_of_int page_num @ ascii ''/'')"

text \<open>
  The progress lines printed after a hotel's reviews are collected add up
  \<open>r.get('review_rating_numeric', 0)\<close> over the reviews and format it with \<open>:.1f\<close>. Both raise
  \<open>TypeError\<close> when the key is present with a value that is not a number (\<open>None\<close> when the
  review shows no rating).
\<close>

definition rating_is_number :: "review \<Rightarrow> bool" where
  "rating_is_number r =
     (case map_of r (ascii ''review_rating_numeric'') of
        None \<Rightarrow> True
      | Some (PInt i) \<Rightarrow> True
      | Some (PFloat x) \<Rightarrow> True
      | Some (PBool b) \<Rightarrow> True
      | Some _ \<Rightarrow> False)"

text \<open>\<open>not html\<close> for the value returned by \<open>make_request\<close>.\<close>

definition no_html :: "pystr option \<Rightarrow> bool" where
  "no_html html = (case html of None \<Rightarrow> True | Some h \<Rightarrow> h = [])"

text \<open>
  The \<open>for i, hotel in enumerate(hotels, 1)\<close> loop of \<open>scrape_page\<close>; \<open>n\<close> is \<open>len(hotels)\<close> and
  \<open>i\<close> the number of the first hotel of the remaining list. The loop ends with
  \<open>Return ()\<close>, or with \<open>Raise TypeError\<close> at the hotel whose progress lines cannot be printed.
\<close>

fun scrape_hotels ::
  "extractors \<Rightarrow> pystr \<Rightarrow> nat \<Rightarrow> nat \<Rightarrow> hotel list \<Rightarrow> parser \<Rightarrow> unit outcome \<times> parser" where
  "scrape_hotels X page_url n i [] p = (Return (), p)"
| "scrape_hotels X page_url n i (hotel # rest) p =
     (if url hotel |\<in>| processed_hotels p then scrape_hotels X page_url n (i + 1) rest p
      else if reviews_count hotel = 0 then
        scrape_hotels X page_url n (i + 1) rest
          (p\<lparr> processed_hotels := finsert (url hotel) (processed_hotels p) \<rparr>)
      else
        (case make_request (url hotel) (Some page_url) 0 p of
           (hotel_html, p1) \<Rightarrow>
             if no_html hotel_html then scrape_hotels X page_url n (i + 1) rest p1
             else
               (let reviews = parse_hotel_page X (the hotel_html) hotel;
                    p2 = (if reviews \<noteq> [] then p1\<lparr> results := results p1 @ reviews \<rparr> else p1)
                in if reviews \<noteq> [] \<and> \<not> list_all rating_is_number reviews then (Raise TypeError, p2)
                   else
                     (let p3 = p2\<lparr> processed_hotels := finsert (url hotel) (processed_hotels p2) \<rparr>;
                          p4 = (if i mod 10 = 0 then save_results (save_progress p3) else p3);
                          p5 = (if i < n
                                then p4\<lparr> trace := trace p4 @
                                       [Sleep_uniform_positive
                                          (DELAY_BETWEEN_HOTELS_MIN (config p4))
                                          (DELAY_BETWEEN_HOTELS_MAX (config p4))] \<rparr>
                                else p4)
                      in scrape_hotels X page_url n (i + 1) rest p5))))"

text \<open>\<open>OtzyovikParser.scrape_page(page_num)\<close>.\<close>

definition scrape_page :: "extractors \<Rightarrow> int \<Rightarrow> parser \<Rightarrow> bool outcome \<times> parser" where
  "scrape_page X page_num p =
     (if page_num |\<in>| processed_pages p then (Return True, p)
      else
        (let page_url = get_list_page_url p page_num
         in case make_request page_url None 0 p of
              (html, p1) \<Rightarrow>
                if no_html html then (Return False, p1)
                else
                  (let hotels = parse_list_page X (the html) page_num page_url
                   in if hotels = [] then
                        (Return True,
                         save_progress (p1\<lparr> processed_pages := finsert page_num (processed_pages p1) \<rparr>))
                      else
                        (case scrape_hotels X page_url (length hotels) 1 hotels p1 of
                           (Raise e, p2) \<Rightarrow> (Raise e, p2)
                         | (Return u, p2) \<Rightarrow>
                             (Return True,
                              save_results (save_progress
                                (p2\<lparr> processed_pages := finsert page_num (processed_pages p2) \<rparr>)))))))"

section \<open>The whole crawl: \<open>run\<close>\<close>

text \<open>
  The summary after the page loop adds up the truthy values of \<open>review_rating_numeric\<close> over
  all results; the sum raises \<open>TypeError\<close> when one of them is a non-empty string.
\<close>

definition rating_sum_raises :: "review \<Rightarrow> bool" where
  "rating_sum_raises r =
     (case map_of r (ascii ''review_rating_numeric'') of
        Some (PStr s) \<Rightarrow> s \<noteq> []
      | _ \<Rightarrow> False)"

text \<open>
  The statistics document written to \<open>data/scraping_stats.json\<close>, as far as a later
  \<open>_load_progress\<close> could read it: of the five keys read there it has the two counters.
\<close>

definition stats_data :: "parser \<Rightarrow> checkpoint" where
  "stats_data p =
     \<lparr> cp_processed_hotels = None,
       cp_processed_pages = None,
       cp_results = None,
       cp_total_requests = Some (total_requests p),
       cp_blocked_count = Some (blocked_count p),
       cp_last_updated = None,
       cp_parser_version = None,
       cp_delays_config = Some
         \<lparr> dc_DELAY_MIN = DELAY_MIN (config p),
           dc_DELAY_MAX = DELAY_MAX (config p),
           dc_DELAY_BETWEEN_HOTELS_MIN = DELAY_BETWEEN_HOTELS_MIN (config p),
           dc_DELAY_BETWEEN_HOTELS_MAX = DELAY_BETWEEN_HOTELS_MAX (config p),
           dc_DELAY_BETWEEN_PAGES_MIN = DELAY_BETWEEN_PAGES_MIN (config p),
           dc_DELAY_BETWEEN_PAGES_MAX = DELAY_BETWEEN_PAGES_MAX (config p),
           dc_DELAY_AFTER_BLOCK = DELAY_AFTER_BLOCK (config p) \<rparr> \<rparr>"

text \<open>The \<open>for page_num in range(start_page, end_page + 1)\<close> loop of \<open>run\<close>.\<close>

fun run_pages :: "extractors \<Rightarrow> int \<Rightarrow> int list \<Rightarrow> parser \<Rightarrow> unit outcome \<times> parser" where
  "run_pages X end_page [] p = (Return (), p)"
| "run_pages X end_page (page_num # rest) p =
     (case scrape_page X page_num p of
        (Raise e, p1) \<Rightarrow> (Raise e, p1)
      | (Return success, p1) \<Rightarrow>
          run_pages X end_page rest
            (if page_num < end_page
             then p1\<lparr> trace := trace p1 @
                    [Sleep_uniform_positive
                       (DELAY_BETWEEN_PAGES_MIN (config p1))
                       (DELAY_BETWEEN_PAGES_MAX (config p1))] \<rparr>
             else p1))"

text \<open>
  \<open>OtzyovikParser.run(start_page, end_page)\<close>; \<open>end_page\<close> is \<open>None\<close> when the argument is left
  out. An exception from the loop or from the summary is caught by \<open>except Exception\<close>,
  which saves the progress and the results.
\<close>

definition run :: "extractors \<Rightarrow> int \<Rightarrow> int option \<Rightarrow> parser \<Rightarrow> parser" where
  "run X start_page end_page_arg p =
     (let end_page = get_default end_page_arg (MAX_PAGES (config p))
      in case run_pages X end_page [start_page..end_page] p of
           (Raise e, p1) \<Rightarrow> save_results (save_progress p1)
         | (Return u, p1) \<Rightarrow>
             if list_ex rating_sum_raises (results p1) then save_results (save_progress p1)
             else
               (let p2 = save_results p1
                in p2\<lparr> files := (files p2)(ascii ''data/scraping_stats.json'' \<mapsto> Checkpoint (stats_data p2)) \<rparr>))"

section \<open>Construction: \<open>__init__\<close>\<close>

text \<open>
  \<open>OtzyovikParser.__init__(config)\<close>, given the configuration object and the world the process
  starts in. The seven delay attributes are assigned, \<open>TIMEOUT\<close> is set when the object has
  none, the state is empty, and \<open>_load_progress\<close> runs last.
\<close>

definition init_config :: "config \<Rightarrow> config" where
  "init_config c =
     c\<lparr> DELAY_MIN := 3.0,
        DELAY_MAX := 5.0,
        DELAY_BETWEEN_HOTELS_MIN := 3.0,
        DELAY_BETWEEN_HOTELS_MAX := 5.0,
        DELAY_BETWEEN_PAGES_MIN := 3.0,
        DELAY_BETWEEN_PAGES_MAX := 5.0,
        DELAY_AFTER_BLOCK := 10,
        TIMEOUT := (case TIMEOUT c of None \<Rightarrow> Some 10 | Some t \<Rightarrow> Some t) \<rparr>"

definition init :: "config \<Rightarrow> event stream \<Rightarrow> real stream \<Rightarrow> (pystr \<Rightarrow> content option) \<Rightarrow> parser" where
  "init c network time fs =
     load_progress
       \<lparr> config = init_config c,
         results = [],
         processed_hotels = {||},
         processed_pages = {||},
         total_requests = 0,
         blocked_count = 0,
         net = network,
         clock = time,
         files = fs,
         trace = [] \<rparr>"

section \<open>Step states of a fetch and of the hotel loop\<close>

text \<open>
  Names for the states inside \<open>make_request\<close>, used to state its steps: \<open>sent\<close> is the state
  after the counter increment, the random delay and the request; \<open>blocked_next\<close> is the state
  in which the retry after a blocked response starts.
\<close>

definition sent :: "pystr \<Rightarrow> pystr option \<Rightarrow> parser \<Rightarrow> parser" where
  "sent u referer p =
     session_get u referer (random_delay (p\<lparr> total_requests := total_requests p + 1 \<rparr>))"

definition blocked_next :: "pystr \<Rightarrow> pystr option \<Rightarrow> nat \<Rightarrow> parser \<Rightarrow> parser" where
  "blocked_next u referer n p =
     rotate_user_agent (time_sleep (DELAY_AFTER_BLOCK (config p) * (real n + 1))
       ((sent u referer p)\<lparr> blocked_count := blocked_count (sent u referer p) + 1 \<rparr>))"

text \<open>The state at the end of the loop body for a hotel whose page was fetched and parsed.\<close>

definition hotel_done :: "extractors \<Rightarrow> nat \<Rightarrow> nat \<Rightarrow> hotel \<Rightarrow> pystr \<Rightarrow> parser \<Rightarrow> parser" where
  "hotel_done X n i hotel hotel_html p1 =
     (let reviews = parse_hotel_page X hotel_html hotel;
          p2 = (if reviews \<noteq> [] then p1\<lparr> results := results p1 @ reviews \<rparr> else p1);
          p3 = p2\<lparr> processed_hotels := finsert (url hotel) (processed_hotels p2) \<rparr>;
          p4 = (if i mod 10 = 0 then save_results (save_progress p3) else p3)
      in if i < n
         then p4\<lparr> trace := trace p4 @
                [Sleep_uniform_positive
                   (DELAY_BETWEEN_HOTELS_MIN (config p4))
                   (DELAY_BETWEEN_HOTELS_MAX (config p4))] \<rparr>
         else p4)"

section \<open>What the crawl preserves\<close>

text \<open>
  What every part of the crawl keeps: the configuration stays, the two processed sets only
  grow, and the actions added to the trace contain no hotel request (a request with a
  referer) for a URL that was already in \<open>processed_hotels\<close>.
\<close>

definition crawl_step :: "parser \<Rightarrow> parser \<Rightarrow> bool" where
  "crawl_step p p' \<longleftrightarrow>
     config p' = config p
     \<and> processed_hotels p |\<subseteq>| processed_hotels p'
     \<and> processed_pages p |\<subseteq>| processed_pages p'
     \<and> (\<exists>es. trace p' = trace p @ es
              \<and> (\<forall>u referer. Get u (Some referer) \<in> set es \<longrightarrow> u |\<notin>| processed_hotels p))"

section \<open>Sample inputs\<close>

text \<open>
  Concrete responses and a freshly constructed parser, for the instances of the theorems:
  a 404 page, a status-200 captcha page, a short status-200 page that carries the content
  marker, and a well-formed HTML page of 1001 characters. \<open>fresh_parser network\<close> is
  \<open>__init__\<close> on the default configuration with no progress file.
\<close>

definition not_found_page :: response where
  "not_found_page =
     \<lparr> status_code = 404, body = ascii ''Not Found'',
       content_type = Some (ascii ''text/html'') \<rparr>"

definition captcha_page :: response where
  "captcha_page =
     \<lparr> status_code = 200, body = ascii ''Please solve the CAPTCHA'',
       content_type = Some (ascii ''text/html'') \<rparr>"

definition marker_page :: response where
  "marker_page =
     \<lparr> status_code = 200, body = ascii ''<div class=product-list>'',
       content_type = Some (ascii ''text/html'') \<rparr>"

definition long_page :: response where
  "long_page =
     \<lparr> status_code = 200, body = replicate 1001 120,
       content_type = Some (ascii ''text/html; charset=utf-8'') \<rparr>"

definition fresh_parser :: "event stream \<Rightarrow> parser" where
  "fresh_parser network = init set_defaults network (sconst 0) Map.empty"

text \<open>
  Three reviews, two of them with the same identifier, a parser in the middle of a crawl,
  and the same parser after a save and two more requests.
\<close>

definition review_a :: review where
  "review_a = [(ascii ''review_id'', PStr (ascii ''hotel_000001_review_1_0042'')),
               (ascii ''review_title'', PStr (ascii ''first'')),
               (ascii ''review_rating_numeric'', PFloat 4.5)]"

definition review_b :: review where
  "review_b = [(ascii ''review_id'', PStr (ascii ''hotel_000001_review_1_0042'')),
               (ascii ''review_title'', PStr (ascii ''second'')),
               (ascii ''review_rating_numeric'', PFloat 5.0)]"

definition review_c :: review where
  "review_c = [(ascii ''review_id'', PStr (ascii ''hotel_000002_review_1_0007'')),
               (ascii ''review_title'', PStr (ascii ''other'')),
               (ascii ''review_rating_numeric'', PNone)]"

definition mid_crawl :: parser where
  "mid_crawl =
     (fresh_parser (sconst Timeout))
       \<lparr> results := [review_a, review_c, review_b],
         processed_hotels := {|ascii ''http://h/1''|},
         processed_pages := {|1|},
         total_requests := 7,
         blocked_count := 2 \<rparr>"

definition later_crawl :: parser where
  "later_crawl = (save_progress mid_crawl)\<lparr> total_requests := 9 \<rparr>"

text \<open>
  A listing page with two hotels, \<open>hotel_a\<close> with three reviews and \<open>hotel_b\<close> with none; every
  hotel page parses to the one review \<open>review_a\<close>.
\<close>

definition hotel_a :: hotel where
  "hotel_a = \<lparr> hotel_id = ascii ''hotel_000001'', name = ascii ''A'',
               url = ascii ''https://otzovik.com/reviews/hotel_a/'', reviews_count = 3,
               hotel_rating = ascii ''4.5'', list_page = 1,
               list_url = ascii ''https://otzovik.com/travel/hotels/'' \<rparr>"

definition hotel_b :: hotel where
  "hotel_b = \<lparr> hotel_id = ascii ''hotel_000002'', name = ascii ''B'',
               url = ascii ''https://otzovik.com/reviews/hotel_b/'', reviews_count = 0,
               hotel_rating = ascii ''3.0'', list_page = 1,
               list_url = ascii ''https://otzovik.com/travel/hotels/'' \<rparr>"

definition page_ab :: extractors where
  "page_ab = \<lparr> parse_list_page = (\<lambda>html page_num page_url. [hotel_a, hotel_b]),
               parse_hotel_page = (\<lambda>html hotel. [review_a]) \<rparr>"

section \<open>Block detection on status-200 responses\<close>

lemma has_block_indicator_marker: "\<not> has_block_indicator content_marker"
  by (simp add: has_block_indicator_def content_marker_def block_indicators_def ascii_def
      lower_def lower_cp_def sublist_Cons_right)

lemma has_block_indicator_Nil: "\<not> has_block_indicator []"
  by (simp add: has_block_indicator_def block_indicators_def ascii_def lower_def)

text \<open>
  C5, as stated, fails twice. A status-200 body of twelve characters that is exactly the
  content marker carries no block indicator and is shorter than 1000, yet it is not
  classified as blocked: the marker switches the short-body rule off at every length.
  And the empty body, which is short and lacks the marker, is not classified as blocked
  either, because the content tests run only on a non-empty body.
\<close>

theorem C5_short_body_counterexample:
  "status_code \<lparr>status_code = 200, body = content_marker, content_type = None\<rparr> = 200
   \<and> \<not> has_block_indicator (body \<lparr>status_code = 200, body = content_marker, content_type = None\<rparr>)
   \<and> length (body \<lparr>status_code = 200, body = content_marker, content_type = None\<rparr>) < 1000
   \<and> sublist content_marker (body \<lparr>status_code = 200, body = content_marker, content_type = None\<rparr>)
   \<and> \<not> is_blocked_response \<lparr>status_code = 200, body = content_marker, content_type = None\<rparr>
   \<and> \<not> has_block_indicator (body \<lparr>status_code = 200, body = [], content_type = None\<rparr>)
   \<and> length (body \<lparr>status_code = 200, body = [], content_type = None\<rparr>) < 1000
   \<and> \<not> sublist content_marker (body \<lparr>status_code = 200, body = [], content_type = None\<rparr>)
   \<and> \<not> is_blocked_response \<lparr>status_code = 200, body = [], content_type = None\<rparr>"
  using has_block_indicator_marker has_block_indicator_Nil
  by (simp add: is_blocked_response_def truthy_def) (simp add: content_marker_def ascii_def)

text \<open>
  C5, amended: a status-200 response whose body carries no block indicator is classified
  as blocked exactly when the body is non-empty, shorter than 1000 code points and does not
  contain the content marker \<open>product-list\<close>. So a short body with the marker is allowed at
  every length, and so is the empty body.
\<close>

theorem C5_short_body_rule:
  assumes "status_code r = 200" and "\<not> has_block_indicator (body r)"
  shows "is_blocked_response r
         \<longleftrightarrow> body r \<noteq> [] \<and> length (body r) < 1000 \<and> \<not> sublist content_marker (body r)"
  using assms by (simp add: is_blocked_response_def truthy_def)

theorem C5_short_body_rule_witness:
  "status_code \<lparr>status_code = 200, body = ascii ''ok'', content_type = None\<rparr> = 200
   \<and> \<not> has_block_indicator (body \<lparr>status_code = 200, body = ascii ''ok'', content_type = None\<rparr>)
   \<and> is_blocked_response \<lparr>status_code = 200, body = ascii ''ok'', content_type = None\<rparr>"
proof -
  let ?r = "\<lparr>status_code = 200, body = ascii ''ok'', content_type = None\<rparr>"
  have s: "status_code ?r = 200" by simp
  have i: "\<not> has_block_indicator (body ?r)"
    by (simp add: has_block_indicator_def block_indicators_def ascii_def lower_def lower_cp_def
        sublist_Cons_right)
  have "body ?r \<noteq> [] \<and> length (body ?r) < 1000 \<and> \<not> sublist content_marker (body ?r)"
    by (simp add: content_marker_def ascii_def sublist_Cons_right)
  with C5_short_body_rule [OF s i] s i show ?thesis by blast
qed

section \<open>Steps of \<open>make_request\<close>\<close>

lemma net_random_delay [simp]: "net (random_delay p) = net p"
  by (simp add: random_delay_def)

lemma mr_unfold:
  "make_request u referer n p =
     (case shd (net p) of
        Response r \<Rightarrow>
          if is_blocked_response r then
            if int n < MAX_RETRIES (config p) then
              make_request u referer (n + 1)
                (rotate_user_agent (time_sleep (DELAY_AFTER_BLOCK (config p) * (real n + 1))
                   ((sent u referer p)\<lparr> blocked_count := blocked_count (sent u referer p) + 1 \<rparr>)))
            else (None, (sent u referer p)\<lparr> blocked_count := blocked_count (sent u referer p) + 1 \<rparr>)
          else if status_code r = 200 \<and> valid_html r then (Some (body r), sent u referer p)
          else (None, sent u referer p)
      | Timeout \<Rightarrow>
          if int n < MAX_RETRIES (config p) then
            make_request u referer (n + 1) (time_sleep (2 * (real n + 1)) (sent u referer p))
          else (None, sent u referer p)
      | Request_error \<Rightarrow>
          if int n < MAX_RETRIES (config p) then
            make_request u referer (n + 1) (time_sleep (1 * (real n + 1)) (sent u referer p))
          else (None, sent u referer p))"
  apply (subst make_request.simps)
  apply (simp only: Let_def sent_def [symmetric] net_random_delay select_convs update_convs)
  apply (cases "shd (net p)")
  apply (simp_all only: event.case if_True if_False split: if_split)
  apply auto
  done

lemma sent_fields [simp]:
  "config (sent u referer p) = config p" "results (sent u referer p) = results p"
  "processed_hotels (sent u referer p) = processed_hotels p"
  "processed_pages (sent u referer p) = processed_pages p"
  "files (sent u referer p) = files p" "clock (sent u referer p) = clock p"
  "net (sent u referer p) = stl (net p)"
  "total_requests (sent u referer p) = total_requests p + 1"
  "blocked_count (sent u referer p) = blocked_count p"
  "trace (sent u referer p) =
     trace p @ [Sleep_uniform (DELAY_MIN (config p)) (DELAY_MAX (config p)), Get u referer]"
  by (simp_all add: sent_def session_get_def random_delay_def)

lemma sleep_fields [simp]:
  "config (time_sleep d p) = config p" "results (time_sleep d p) = results p"
  "processed_hotels (time_sleep d p) = processed_hotels p"
  "processed_pages (time_sleep d p) = processed_pages p"
  "files (time_sleep d p) = files p" "clock (time_sleep d p) = clock p"
  "net (time_sleep d p) = net p"
  "total_requests (time_sleep d p) = total_requests p"
  "blocked_count (time_sleep d p) = blocked_count p"
  "trace (time_sleep d p) = trace p @ [Sleep d]"
  by (simp_all add: time_sleep_def)

lemma rotate_fields [simp]:
  "config (rotate_user_agent p) = config p" "results (rotate_user_agent p) = results p"
  "processed_hotels (rotate_user_agent p) = processed_hotels p"
  "processed_pages (rotate_user_agent p) = processed_pages p"
  "files (rotate_user_agent p) = files p" "clock (rotate_user_agent p) = clock p"
  "net (rotate_user_agent p) = net p"
  "total_requests (rotate_user_agent p) = total_requests p"
  "blocked_count (rotate_user_agent p) = blocked_count p"
  "trace (rotate_user_agent p) = trace p @ [Rotate_user_agent]"
  by (simp_all add: rotate_user_agent_def)


lemma blocked_next_fields [simp]:
  "config (blocked_next u referer n p) = config p" "results (blocked_next u referer n p) = results p"
  "processed_hotels (blocked_next u referer n p) = processed_hotels p"
  "processed_pages (blocked_next u referer n p) = processed_pages p"
  "files (blocked_next u referer n p) = files p" "clock (blocked_next u referer n p) = clock p"
  "net (blocked_next u referer n p) = stl (net p)"
  "total_requests (blocked_next u referer n p) = total_requests p + 1"
  "blocked_count (blocked_next u referer n p) = blocked_count p + 1"
  "trace (blocked_next u referer n p) =
     trace p @ [Sleep_uniform (DELAY_MIN (config p)) (DELAY_MAX (config p)), Get u referer,
                Sleep (DELAY_AFTER_BLOCK (config p) * (real n + 1)), Rotate_user_agent]"
  by (simp_all add: blocked_next_def)

lemma mr_blocked_retry:
  "\<lbrakk>shd (net p) = Response r; is_blocked_response r; int n < MAX_RETRIES (config p)\<rbrakk>
   \<Longrightarrow> make_request u referer n p = make_request u referer (n + 1) (blocked_next u referer n p)"
  by (subst mr_unfold) (simp add: blocked_next_def)

lemma mr_blocked_stop:
  "\<lbrakk>shd (net p) = Response r; is_blocked_response r; \<not> int n < MAX_RETRIES (config p)\<rbrakk>
   \<Longrightarrow> make_request u referer n p =
         (None, (sent u referer p)\<lparr> blocked_count := blocked_count (sent u referer p) + 1 \<rparr>)"
  by (subst mr_unfold) simp

lemma mr_pass:
  "\<lbrakk>shd (net p) = Response r; \<not> is_blocked_response r\<rbrakk>
   \<Longrightarrow> make_request u referer n p =
         (if status_code r = 200 \<and> valid_html r then Some (body r) else None, sent u referer p)"
  by (subst mr_unfold) simp

lemma mr_timeout_retry:
  "\<lbrakk>shd (net p) = Timeout; int n < MAX_RETRIES (config p)\<rbrakk>
   \<Longrightarrow> make_request u referer n p =
         make_request u referer (n + 1) (time_sleep (2 * (real n + 1)) (sent u referer p))"
  by (subst mr_unfold) simp

lemma mr_timeout_stop:
  "\<lbrakk>shd (net p) = Timeout; \<not> int n < MAX_RETRIES (config p)\<rbrakk>
   \<Longrightarrow> make_request u referer n p = (None, sent u referer p)"
  by (subst mr_unfold) simp

lemma mr_error_retry:
  "\<lbrakk>shd (net p) = Request_error; int n < MAX_RETRIES (config p)\<rbrakk>
   \<Longrightarrow> make_request u referer n p =
         make_request u referer (n + 1) (time_sleep (1 * (real n + 1)) (sent u referer p))"
  by (subst mr_unfold) simp

lemma mr_error_stop:
  "\<lbrakk>shd (net p) = Request_error; \<not> int n < MAX_RETRIES (config p)\<rbrakk>
   \<Longrightarrow> make_request u referer n p = (None, sent u referer p)"
  by (subst mr_unfold) simp

text \<open>Induction over the attempts of one fetch.\<close>

lemma make_request_attempts_induct [case_names Attempt]:
  assumes step: "\<And>u referer n p.
      \<lbrakk>\<And>r. \<lbrakk>shd (net p) = Response r; is_blocked_response r; int n < MAX_RETRIES (config p)\<rbrakk>
            \<Longrightarrow> P u referer (n + 1) (blocked_next u referer n p);
       \<lbrakk>shd (net p) = Timeout; int n < MAX_RETRIES (config p)\<rbrakk>
            \<Longrightarrow> P u referer (n + 1) (time_sleep (2 * (real n + 1)) (sent u referer p));
       \<lbrakk>shd (net p) = Request_error; int n < MAX_RETRIES (config p)\<rbrakk>
            \<Longrightarrow> P u referer (n + 1) (time_sleep (1 * (real n + 1)) (sent u referer p))\<rbrakk>
      \<Longrightarrow> P u referer n p"
  shows "P u referer n p"
proof (induction u referer n p rule: make_request.induct)
  case (1 u referer n p)
  show ?case
  proof (rule step)
    fix r assume "shd (net p) = Response r" "is_blocked_response r" "int n < MAX_RETRIES (config p)"
    then show "P u referer (n + 1) (blocked_next u referer n p)"
      using "1.IH"(1)[OF refl refl _ _ refl, of r]
      by (simp add: blocked_next_def sent_def)
  next
    assume "shd (net p) = Timeout" "int n < MAX_RETRIES (config p)"
    then show "P u referer (n + 1) (time_sleep (2 * (real n + 1)) (sent u referer p))"
      using "1.IH"(2)[OF refl refl] by (simp add: sent_def)
  next
    assume "shd (net p) = Request_error" "int n < MAX_RETRIES (config p)"
    then show "P u referer (n + 1) (time_sleep (1 * (real n + 1)) (sent u referer p))"
      using "1.IH"(3)[OF refl refl] by (simp add: sent_def)
  qed
qed

lemma make_request_frame:
  "make_request u referer n p = (res, p') \<Longrightarrow>
     config p' = config p \<and> results p' = results p \<and> processed_hotels p' = processed_hotels p
     \<and> processed_pages p' = processed_pages p \<and> files p' = files p \<and> clock p' = clock p"
proof (induction u referer n p arbitrary: res p' rule: make_request_attempts_induct)
  case (Attempt u referer n p)
  show ?case
  proof (cases "shd (net p)")
    case (Response r)
    show ?thesis
    proof (cases "is_blocked_response r")
      case True
      show ?thesis
      proof (cases "int n < MAX_RETRIES (config p)")
        case True
        with Response \<open>is_blocked_response r\<close> Attempt.prems Attempt.IH(1) show ?thesis
          by (simp add: mr_blocked_retry)
      next
        case False
        with Response \<open>is_blocked_response r\<close> Attempt.prems show ?thesis
          by (auto simp add: mr_blocked_stop)
      qed
    next
      case False
      with Response Attempt.prems show ?thesis by (auto simp add: mr_pass)
    qed
  next
    case Timeout
    show ?thesis
    proof (cases "int n < MAX_RETRIES (config p)")
      case True
      with Timeout Attempt.prems Attempt.IH(2) show ?thesis by (simp add: mr_timeout_retry)
    next
      case False
      with Timeout Attempt.prems show ?thesis by (auto simp add: mr_timeout_stop)
    qed
  next
    case Request_error
    show ?thesis
    proof (cases "int n < MAX_RETRIES (config p)")
      case True
      with Request_error Attempt.prems Attempt.IH(3) show ?thesis by (simp add: mr_error_retry)
    next
      case False
      with Request_error Attempt.prems show ?thesis by (auto simp add: mr_error_stop)
    qed
  qed
qed

section \<open>Facts about the sample inputs\<close>

lemma fresh_parser_fields [simp]:
  "MAX_RETRIES (config (fresh_parser nw)) = 3"
  "DELAY_AFTER_BLOCK (config (fresh_parser nw)) = 10"
  "DELAY_MIN (config (fresh_parser nw)) = 3"
  "DELAY_MAX (config (fresh_parser nw)) = 5"
  "net (fresh_parser nw) = nw"
  "trace (fresh_parser nw) = []"
  "total_requests (fresh_parser nw) = 0"
  "blocked_count (fresh_parser nw) = 0"
  "processed_hotels (fresh_parser nw) = {||}"
  "processed_pages (fresh_parser nw) = {||}"
  "results (fresh_parser nw) = []"
  by (simp_all add: fresh_parser_def init_def init_config_def set_defaults_def load_progress_def)

lemma sample_status [simp]:
  "status_code not_found_page = 404" "status_code captcha_page = 200"
  "status_code marker_page = 200" "status_code long_page = 200"
  by (simp_all add: not_found_page_def captcha_page_def marker_page_def long_page_def)

lemma not_found_not_blocked: "\<not> is_blocked_response not_found_page"
  by (simp add: is_blocked_response_def truthy_def not_found_page_def)

lemma captcha_blocked: "is_blocked_response captcha_page"
  by (simp add: is_blocked_response_def truthy_def captcha_page_def has_block_indicator_def
      block_indicators_def ascii_def lower_def lower_cp_def sublist_Cons_right)

lemma marker_not_blocked: "\<not> is_blocked_response marker_page"
  by (simp add: is_blocked_response_def truthy_def marker_page_def has_block_indicator_def
      block_indicators_def content_marker_def ascii_def lower_def lower_cp_def sublist_Cons_right)

lemma lower_replicate_x: "lower (replicate k 120) = replicate k 120"
  by (induction k) (simp_all add: lower_def lower_cp_def)

lemma no_indicator_replicate_x: "\<not> has_block_indicator (replicate k 120)"
proof -
  have "\<not> sublist ind (replicate k 120)" if "ind \<in> set block_indicators" for ind
  proof
    assume "sublist ind (replicate k 120)"
    then have "set ind \<subseteq> set (replicate k (120::nat))" by (rule set_mono_sublist)
    then have "set ind \<subseteq> {120}" by auto
    with that show False
      by (auto simp: block_indicators_def ascii_def)
  qed
  then show ?thesis
    by (auto simp: has_block_indicator_def lower_replicate_x list_ex_iff)
qed

lemma long_not_blocked: "\<not> is_blocked_response long_page"
  using no_indicator_replicate_x [of 1001]
  by (simp add: is_blocked_response_def truthy_def long_page_def)

lemma long_valid: "valid_html long_page"
  by (simp add: valid_html_def long_page_def get_default_def ascii_def sublist_Cons_right)

lemma marker_invalid: "\<not> valid_html marker_page"
  by (simp add: valid_html_def marker_page_def ascii_def)

section \<open>A missing page and exhausted retries\<close>

text \<open>
  C7, as stated, fails in its second half: the value that \<open>make_request\<close> returns for a 404
  response is \<open>None\<close>, and the value it returns after a run of blocked responses has used up
  all retries is \<open>None\<close> as well. Here the first fetch gets a 404 (one request), the second
  gets a captcha page four times (\<open>MAX_RETRIES = 3\<close>); both return \<open>None\<close>.
\<close>

theorem C7_counterexample:
  "fst (make_request (ascii ''http://h/1'') None 0 (fresh_parser (sconst (Response not_found_page)))) = None
   \<and> fst (make_request (ascii ''http://h/1'') None 0 (fresh_parser (sconst (Response captcha_page)))) = None
   \<and> total_requests (snd (make_request (ascii ''http://h/1'') None 0 (fresh_parser (sconst (Response not_found_page))))) = 1
   \<and> total_requests (snd (make_request (ascii ''http://h/1'') None 0 (fresh_parser (sconst (Response captcha_page))))) = 4"
  by (simp add: mr_pass [where r = not_found_page] not_found_not_blocked
      mr_blocked_retry [where r = captcha_page] mr_blocked_stop [where r = captcha_page] captcha_blocked)


text \<open>
  C7, amended: a 404 response is never retried. Whatever the retry count, \<open>make_request\<close>
  returns \<open>None\<close> after that one request: the request counter grows by one, the block counter
  is unchanged, and nothing follows the request (no backoff sleep, no rotation). A 404 is
  never classified as blocked, because a response with a status from 400 to 599 is false as
  a truth value. The returned value is the same \<open>None\<close> that a blocked response returns once
  the retries are used up, so the result does not tell a missing page from a give-up.
\<close>

theorem C7_not_found_never_retried:
  assumes "shd (net p) = Response r" and "status_code r = 404"
  shows "make_request u referer n p = (None, sent u referer p)
         \<and> total_requests (sent u referer p) = total_requests p + 1
         \<and> blocked_count (sent u referer p) = blocked_count p
         \<and> trace (sent u referer p) =
             trace p @ [Sleep_uniform (DELAY_MIN (config p)) (DELAY_MAX (config p)), Get u referer]
         \<and> (\<forall>q r' m. shd (net q) = Response r' \<and> is_blocked_response r' \<and> \<not> int m < MAX_RETRIES (config q)
               \<longrightarrow> fst (make_request u referer m q) = fst (make_request u referer n p))"
proof -
  have "\<not> is_blocked_response r"
    using assms(2) by (simp add: is_blocked_response_def truthy_def)
  with assms show ?thesis
    by (simp add: mr_pass mr_blocked_stop)
qed

theorem C7_not_found_never_retried_witness:
  "shd (net (fresh_parser (sconst (Response not_found_page)))) = Response not_found_page
   \<and> status_code not_found_page = 404
   \<and> make_request (ascii ''http://h/1'') None 0 (fresh_parser (sconst (Response not_found_page)))
       = (None, sent (ascii ''http://h/1'') None (fresh_parser (sconst (Response not_found_page))))
   \<and> trace (sent (ascii ''http://h/1'') None (fresh_parser (sconst (Response not_found_page))))
       = [Sleep_uniform 3 5, Get (ascii ''http://h/1'') None]"
  using C7_not_found_never_retried [of "fresh_parser (sconst (Response not_found_page))" not_found_page
      "ascii ''http://h/1''" None 0]
  by simp

section \<open>Backoff after a blocked response\<close>

text \<open>
  C6: when the response to attempt \<open>a\<close> is classified as blocked and \<open>a < MAX_RETRIES\<close>, the
  fetch sleeps \<open>DELAY_AFTER_BLOCK * (a + 1)\<close>, rotates the User-Agent and goes on as attempt
  \<open>a + 1\<close>; the wait is computed from the attempt count alone. At \<open>a = MAX_RETRIES\<close> the
  fetch returns \<open>None\<close> with no further action. For a positive base (\<open>__init__\<close> sets it to
  10) the wait grows strictly with \<open>a\<close>.
\<close>

theorem C6_blocked_backoff:
  assumes "shd (net p) = Response r" and "is_blocked_response r"
  shows "(int a < MAX_RETRIES (config p) \<longrightarrow>
            make_request u referer a p = make_request u referer (a + 1) (blocked_next u referer a p)
            \<and> trace (blocked_next u referer a p) =
                trace p @ [Sleep_uniform (DELAY_MIN (config p)) (DELAY_MAX (config p)), Get u referer,
                           Sleep (DELAY_AFTER_BLOCK (config p) * (real a + 1)), Rotate_user_agent])
         \<and> (int a = MAX_RETRIES (config p) \<longrightarrow>
              fst (make_request u referer a p) = None
              \<and> trace (snd (make_request u referer a p)) =
                  trace p @ [Sleep_uniform (DELAY_MIN (config p)) (DELAY_MAX (config p)), Get u referer])
         \<and> (0 < DELAY_AFTER_BLOCK (config p) \<longrightarrow>
              (\<forall>b. a < b \<longrightarrow> DELAY_AFTER_BLOCK (config p) * (real a + 1)
                              < DELAY_AFTER_BLOCK (config p) * (real b + 1)))"
  using assms by (simp add: mr_blocked_retry mr_blocked_stop)

theorem C6_blocked_backoff_witness:
  "shd (net (fresh_parser (sconst (Response captcha_page)))) = Response captcha_page
   \<and> is_blocked_response captcha_page
   \<and> trace (blocked_next (ascii ''http://h/1'') None 2 (fresh_parser (sconst (Response captcha_page))))
       = [Sleep_uniform 3 5, Get (ascii ''http://h/1'') None, Sleep 30, Rotate_user_agent]
   \<and> fst (make_request (ascii ''http://h/1'') None 3 (fresh_parser (sconst (Response captcha_page)))) = None"
  using C6_blocked_backoff [of "fresh_parser (sconst (Response captcha_page))" captcha_page 2
      "ascii ''http://h/1''" None]
    C6_blocked_backoff [of "fresh_parser (sconst (Response captcha_page))" captcha_page 3
      "ascii ''http://h/1''" None]
    captcha_blocked
  by simp

section \<open>What a fetch returns\<close>

text \<open>
  The last outcome a fetch consumes decides its result; \<open>j + 1\<close> is the number of requests
  issued.
\<close>

lemma make_request_final:
  "make_request u referer n p = (res, p') \<Longrightarrow>
     \<exists>j. total_requests p' = total_requests p + 1 + int j \<and> net p' = sdrop (Suc j) (net p)
         \<and> (case res of
               Some b \<Rightarrow> \<exists>r. net p !! j = Response r \<and> \<not> is_blocked_response r
                              \<and> status_code r = 200 \<and> valid_html r \<and> b = body r
             | None \<Rightarrow> \<forall>r. net p !! j = Response r \<longrightarrow>
                              is_blocked_response r \<or> status_code r \<noteq> 200 \<or> \<not> valid_html r)"
proof (induction u referer n p arbitrary: res p' rule: make_request_attempts_induct)
  case (Attempt u referer n p)
  let ?Q = "\<lambda>p j. total_requests p' = total_requests p + 1 + int j \<and> net p' = sdrop (Suc j) (net p)
         \<and> (case res of
               Some b \<Rightarrow> \<exists>r. net p !! j = Response r \<and> \<not> is_blocked_response r
                              \<and> status_code r = 200 \<and> valid_html r \<and> b = body r
             | None \<Rightarrow> \<forall>r. net p !! j = Response r \<longrightarrow>
                              is_blocked_response r \<or> status_code r \<noteq> 200 \<or> \<not> valid_html r)"
  have next_step: "\<exists>j. ?Q p j" if "?Q q j" "net q = stl (net p)" "total_requests q = total_requests p + 1" for q j
  proof -
    from that have "?Q p (Suc j)" by (simp split: option.splits)
    then show ?thesis ..
  qed
  have stop: "\<exists>j. ?Q p j" if "?Q p 0"
    using that ..
  show ?case
  proof (cases "shd (net p)")
    case (Response r)
    show ?thesis
    proof (cases "is_blocked_response r")
      case True
      show ?thesis
      proof (cases "int n < MAX_RETRIES (config p)")
        case True
        with Response \<open>is_blocked_response r\<close> Attempt.prems
        have "make_request u referer (n + 1) (blocked_next u referer n p) = (res, p')"
          by (simp add: mr_blocked_retry)
        from Attempt.IH(1) [OF Response \<open>is_blocked_response r\<close> True this]
        obtain j where "?Q (blocked_next u referer n p) j" by blast
        then show ?thesis by (rule next_step) simp_all
      next
        case False
        with Response \<open>is_blocked_response r\<close> Attempt.prems show ?thesis
          by (intro stop) (auto simp add: mr_blocked_stop)
      qed
    next
      case False
      with Response Attempt.prems show ?thesis
        by (intro stop) (auto simp add: mr_pass split: if_splits)
    qed
  next
    case Timeout
    show ?thesis
    proof (cases "int n < MAX_RETRIES (config p)")
      case True
      with Timeout Attempt.prems
      have "make_request u referer (n + 1) (time_sleep (2 * (real n + 1)) (sent u referer p)) = (res, p')"
        by (simp add: mr_timeout_retry)
      from Attempt.IH(2) [OF Timeout True this]
      obtain j where "?Q (time_sleep (2 * (real n + 1)) (sent u referer p)) j" by blast
      then show ?thesis by (rule next_step) simp_all
    next
      case False
      with Timeout Attempt.prems show ?thesis
        by (intro stop) (auto simp add: mr_timeout_stop)
    qed
  next
    case Request_error
    show ?thesis
    proof (cases "int n < MAX_RETRIES (config p)")
      case True
      with Request_error Attempt.prems
      have "make_request u referer (n + 1) (time_sleep (1 * (real n + 1)) (sent u referer p)) = (res, p')"
        by (simp add: mr_error_retry)
      from Attempt.IH(3) [OF Request_error True this]
      obtain j where "?Q (time_sleep (1 * (real n + 1)) (sent u referer p)) j" by blast
      then show ?thesis by (rule next_step) simp_all
    next
      case False
      with Request_error Attempt.prems show ?thesis
        by (intro stop) (auto simp add: mr_error_stop)
    qed
  qed
qed


text \<open>
  C10: when \<open>make_request\<close> returns a page text, the last response it received has status
  200, a Content-Type containing \<open>text/html\<close> and a body longer than 1000 characters, and
  the text is that body. When the last response has status 200 and fails the content-type
  or the length test, the result is \<open>None\<close>; in particular a response that is not classified
  as blocked (such as a short body with the content marker) gives \<open>None\<close> at once, which is
  also what a failed fetch returns.
\<close>

theorem C10_body_only_for_valid_html:
  assumes "make_request u referer n p = (res, p')"
  shows "\<exists>j. total_requests p' = total_requests p + 1 + int j
           \<and> (\<forall>b. res = Some b \<longrightarrow>
                 (\<exists>r. net p !! j = Response r \<and> status_code r = 200
                      \<and> sublist (ascii ''text/html'') (get_default (content_type r) [])
                      \<and> 1000 < length (body r) \<and> b = body r))
           \<and> (\<forall>r. net p !! j = Response r \<and> status_code r = 200
                    \<and> \<not> (sublist (ascii ''text/html'') (get_default (content_type r) [])
                           \<and> 1000 < length (body r))
                 \<longrightarrow> res = None)
           \<and> (\<forall>r. shd (net p) = Response r \<and> \<not> is_blocked_response r \<and> status_code r = 200
                    \<and> \<not> (sublist (ascii ''text/html'') (get_default (content_type r) [])
                           \<and> 1000 < length (body r))
                 \<longrightarrow> res = None \<and> p' = sent u referer p)"
proof -
  from make_request_final [OF assms] obtain j where
    j: "total_requests p' = total_requests p + 1 + int j"
    and fin: "case res of
               Some b \<Rightarrow> \<exists>r. net p !! j = Response r \<and> \<not> is_blocked_response r
                              \<and> status_code r = 200 \<and> valid_html r \<and> b = body r
             | None \<Rightarrow> \<forall>r. net p !! j = Response r \<longrightarrow>
                              is_blocked_response r \<or> status_code r \<noteq> 200 \<or> \<not> valid_html r"
    by blast
  have a: "\<forall>b. res = Some b \<longrightarrow>
                 (\<exists>r. net p !! j = Response r \<and> status_code r = 200
                      \<and> sublist (ascii ''text/html'') (get_default (content_type r) [])
                      \<and> 1000 < length (body r) \<and> b = body r)"
    using fin by (auto simp: valid_html_def)
  have b: "\<forall>r. net p !! j = Response r \<and> status_code r = 200
                    \<and> \<not> (sublist (ascii ''text/html'') (get_default (content_type r) [])
                           \<and> 1000 < length (body r))
                 \<longrightarrow> res = None"
    using fin by (cases res) (auto simp: valid_html_def)
  have c: "\<forall>r. shd (net p) = Response r \<and> \<not> is_blocked_response r \<and> status_code r = 200
                    \<and> \<not> (sublist (ascii ''text/html'') (get_default (content_type r) [])
                           \<and> 1000 < length (body r))
                 \<longrightarrow> res = None \<and> p' = sent u referer p"
    using assms by (auto simp: mr_pass valid_html_def)
  from j a b c show ?thesis by blast
qed

theorem C10_body_only_for_valid_html_witness:
  "fst (make_request (ascii ''http://h/1'') None 0
          (fresh_parser (Response captcha_page ## sconst (Response long_page)))) = Some (body long_page)
   \<and> fst (make_request (ascii ''http://h/1'') None 0
          (fresh_parser (sconst (Response marker_page)))) = None
   \<and> (\<exists>j. total_requests (snd (make_request (ascii ''http://h/1'') None 0
                 (fresh_parser (Response captcha_page ## sconst (Response long_page)))))
            = total_requests (fresh_parser (Response captcha_page ## sconst (Response long_page))) + 1 + int j
          \<and> (\<exists>r. (Response captcha_page ## sconst (Response long_page)) !! j = Response r
                 \<and> status_code r = 200
                 \<and> sublist (ascii ''text/html'') (get_default (content_type r) [])
                 \<and> 1000 < length (body r) \<and> body long_page = body r))"
proof -
  let ?u = "ascii ''http://h/1''"
  let ?p = "fresh_parser (Response captcha_page ## sconst (Response long_page))"
  have run: "fst (make_request ?u None 0 ?p) = Some (body long_page)"
    by (simp add: mr_blocked_retry [where r = captcha_page] captcha_blocked
        mr_pass [where r = long_page] long_not_blocked long_valid)
  have short: "fst (make_request ?u None 0 (fresh_parser (sconst (Response marker_page)))) = None"
    by (simp add: mr_pass [where r = marker_page] marker_not_blocked marker_invalid)
  have "make_request ?u None 0 ?p = (fst (make_request ?u None 0 ?p), snd (make_request ?u None 0 ?p))"
    by simp
  from C10_body_only_for_valid_html [OF this] run short show ?thesis
    by (simp only: fresh_parser_fields) blast
qed

section \<open>Saving and loading the checkpoint\<close>

lemma save_progress_frame [simp]:
  "config (save_progress p) = config p" "results (save_progress p) = results p"
  "processed_hotels (save_progress p) = processed_hotels p"
  "processed_pages (save_progress p) = processed_pages p"
  "total_requests (save_progress p) = total_requests p"
  "blocked_count (save_progress p) = blocked_count p"
  "net (save_progress p) = net p" "trace (save_progress p) = trace p"
  by (simp_all add: save_progress_def)

lemma save_results_frame [simp]:
  "config (save_results p) = config p" "results (save_results p) = results p"
  "processed_hotels (save_results p) = processed_hotels p"
  "processed_pages (save_results p) = processed_pages p"
  "total_requests (save_results p) = total_requests p"
  "blocked_count (save_results p) = blocked_count p"
  "net (save_results p) = net p" "trace (save_results p) = trace p"
  "clock (save_results p) = clock p"
  by (simp_all add: save_results_def Let_def)

lemma load_progress_frame [simp]:
  "config (load_progress p) = config p"
  "net (load_progress p) = net p" "trace (load_progress p) = trace p"
  "clock (load_progress p) = clock p" "files (load_progress p) = files p"
  by (simp_all add: load_progress_def split: option.splits content.splits)

lemma files_save_progress:
  "files (save_progress p) =
     (files p)(PROGRESS_FILE (config p) \<mapsto> Checkpoint (progress_data p (shd (clock p))),
               backup_file (shd (stl (clock p))) \<mapsto> Checkpoint (progress_data p (shd (clock p))))"
  by (simp add: save_progress_def save_progress_ops_def Let_def)

lemma load_checkpoint:
  "files p (PROGRESS_FILE (config p)) = Some (Checkpoint (progress_data s now)) \<Longrightarrow>
   load_progress p =
     p\<lparr> processed_hotels := processed_hotels s, processed_pages := processed_pages s,
        results := results s, total_requests := total_requests s,
        blocked_count := blocked_count s \<rparr>"
  by (simp add: load_progress_def progress_data_def get_default_def)



lemma mid_crawl_fields [simp]:
  "config mid_crawl = init_config set_defaults" "clock mid_crawl = sconst 0"
  "files mid_crawl = Map.empty" "total_requests mid_crawl = 7"
  "results mid_crawl = [review_a, review_c, review_b]"
  by (simp_all add: mid_crawl_def fresh_parser_def init_def load_progress_def)

lemma init_config_paths [simp]:
  "PROGRESS_FILE (init_config c) = PROGRESS_FILE c" "OUTPUT_FILE (init_config c) = OUTPUT_FILE c"
  "MAX_RETRIES (init_config c) = MAX_RETRIES c" "BASE_URL (init_config c) = BASE_URL c"
  by (simp_all add: init_config_def)

lemma later_crawl_fields [simp]:
  "config later_crawl = init_config set_defaults" "clock later_crawl = sconst 0"
  "total_requests later_crawl = 9"
  by (simp_all add: later_crawl_def save_progress_def)


lemma files_interrupted:
  "files (save_progress_interrupted k p) =
     foldl apply_op (files p)
       (take k [Open_w (PROGRESS_FILE (config p)),
                Json_dump (PROGRESS_FILE (config p)) (progress_data p (shd (clock p))),
                Open_w (backup_file (shd (stl (clock p)))),
                Json_dump (backup_file (shd (stl (clock p)))) (progress_data p (shd (clock p)))])"
  by (simp add: save_progress_interrupted_def save_progress_ops_def Let_def)

lemma load_not_json:
  "files p (PROGRESS_FILE (config p)) = Some Not_json \<Longrightarrow> load_progress p = p"
  by (simp add: load_progress_def)

lemma take_cases4: "k = 0 \<or> k = 1 \<or> k = 2 \<or> k = 3 \<or> 4 \<le> (k::nat)"
  by arith

lemma progress_file_interrupted:
  "files (save_progress_interrupted k p) (PROGRESS_FILE (config p)) =
     (if k = 0 then files p (PROGRESS_FILE (config p))
      else if k = 1 \<or> k = 3 \<and> backup_file (shd (stl (clock p))) = PROGRESS_FILE (config p)
      then Some Not_json
      else Some (Checkpoint (progress_data p (shd (clock p)))))"
  using take_cases4 [of k]
  by (elim disjE) (simp_all add: files_interrupted numeral_eq_Suc)

text \<open>
  C2, as stated, fails: the save is not atomic and the backup is not immutable.
  \<open>later_crawl\<close> has a complete checkpoint of \<open>mid_crawl\<close> on disk. A save of \<open>later_crawl\<close> that
  stops after its first file operation leaves the progress file empty, so the previous
  checkpoint is gone and the next process starts with no processed hotel, although the
  checkpoint on disk before the save listed one. And a completed save of \<open>later_crawl\<close> in
  the same second writes to the backup name that already held the backup of \<open>mid_crawl\<close>, and
  replaces it with a different document.
\<close>

theorem C2_counterexample:
  "files later_crawl (PROGRESS_FILE (config later_crawl)) = Some (Checkpoint (progress_data mid_crawl 0))
   \<and> files (save_progress_interrupted 1 later_crawl) (PROGRESS_FILE (config later_crawl)) = Some Not_json
   \<and> processed_hotels (init set_defaults (sconst Timeout) (sconst 0)
                          (files (save_progress_interrupted 1 later_crawl))) = {||}
   \<and> processed_hotels mid_crawl = {|ascii ''http://h/1''|}
   \<and> files later_crawl (backup_file 0) = Some (Checkpoint (progress_data mid_crawl 0))
   \<and> files (save_progress later_crawl) (backup_file 0) = Some (Checkpoint (progress_data later_crawl 0))
   \<and> progress_data later_crawl 0 \<noteq> progress_data mid_crawl 0"
proof -
  have a: "files later_crawl (PROGRESS_FILE (config later_crawl)) = Some (Checkpoint (progress_data mid_crawl 0))"
    by (simp add: later_crawl_def files_save_progress)
  have b: "files (save_progress_interrupted 1 later_crawl) (PROGRESS_FILE (config later_crawl)) = Some Not_json"
    using progress_file_interrupted [of 1 later_crawl] by simp
  have "files (save_progress_interrupted 1 later_crawl) (PROGRESS_FILE set_defaults) = Some Not_json"
    using b by simp
  then have c: "processed_hotels (init set_defaults (sconst Timeout) (sconst 0)
                          (files (save_progress_interrupted 1 later_crawl))) = {||}"
    by (simp add: init_def load_progress_def)
  have d: "processed_hotels mid_crawl = {|ascii ''http://h/1''|}"
    by (simp add: mid_crawl_def)
  have e: "files later_crawl (backup_file 0) = Some (Checkpoint (progress_data mid_crawl 0))"
    by (simp add: later_crawl_def files_save_progress)
  have f: "files (save_progress later_crawl) (backup_file 0) = Some (Checkpoint (progress_data later_crawl 0))"
    by (simp add: files_save_progress)
  have "cp_total_requests (progress_data later_crawl 0) \<noteq> cp_total_requests (progress_data mid_crawl 0)"
    by (simp add: progress_data_def)
  then have g: "progress_data later_crawl 0 \<noteq> progress_data mid_crawl 0"
    by auto
  from a b c d e f g show ?thesis by blast
qed

text \<open>
  C2, amended: every completed save writes the full state (processed pages and hotels,
  results, counters) into the progress file in place, by opening it for writing and
  dumping the document, and then writes the same document to
  \<open>data/progress_backup_<seconds>.json\<close>, replacing whatever that name held; no other file
  changes. If the save stops after \<open>k\<close> of its file operations, then either nothing was
  done yet, or the process that loads the progress file is left in the state it started
  with (the file is empty, which is logged; a cold start), or it loads exactly the state
  that was being saved.
\<close>

theorem C2_save_in_place:
  "files (save_progress p) (PROGRESS_FILE (config p)) = Some (Checkpoint (progress_data p (shd (clock p))))
   \<and> files (save_progress p) (backup_file (shd (stl (clock p))))
       = Some (Checkpoint (progress_data p (shd (clock p))))
   \<and> (\<forall>path. path \<noteq> PROGRESS_FILE (config p) \<and> path \<noteq> backup_file (shd (stl (clock p)))
         \<longrightarrow> files (save_progress p) path = files p path)
   \<and> (\<forall>k q. PROGRESS_FILE (config q) = PROGRESS_FILE (config p) \<longrightarrow>
         (k = 0 \<and> files (save_progress_interrupted k p) = files p)
         \<or> load_progress (q\<lparr> files := files (save_progress_interrupted k p) \<rparr>)
             = q\<lparr> files := files (save_progress_interrupted k p) \<rparr>
         \<or> load_progress (q\<lparr> files := files (save_progress_interrupted k p) \<rparr>)
             = q\<lparr> files := files (save_progress_interrupted k p),
                  processed_hotels := processed_hotels p, processed_pages := processed_pages p,
                  results := results p, total_requests := total_requests p,
                  blocked_count := blocked_count p \<rparr>)"
proof -
  have a: "files (save_progress p) (PROGRESS_FILE (config p)) = Some (Checkpoint (progress_data p (shd (clock p))))"
    by (simp add: files_save_progress)
  have b: "files (save_progress p) (backup_file (shd (stl (clock p))))
       = Some (Checkpoint (progress_data p (shd (clock p))))"
    by (simp add: files_save_progress)
  have c: "\<forall>path. path \<noteq> PROGRESS_FILE (config p) \<and> path \<noteq> backup_file (shd (stl (clock p)))
         \<longrightarrow> files (save_progress p) path = files p path"
    by (simp add: files_save_progress)
  have d: "(k = 0 \<and> files (save_progress_interrupted k p) = files p)
         \<or> load_progress (q\<lparr> files := files (save_progress_interrupted k p) \<rparr>)
             = q\<lparr> files := files (save_progress_interrupted k p) \<rparr>
         \<or> load_progress (q\<lparr> files := files (save_progress_interrupted k p) \<rparr>)
             = q\<lparr> files := files (save_progress_interrupted k p),
                  processed_hotels := processed_hotels p, processed_pages := processed_pages p,
                  results := results p, total_requests := total_requests p,
                  blocked_count := blocked_count p \<rparr>"
    if q: "PROGRESS_FILE (config q) = PROGRESS_FILE (config p)" for k q
  proof -
    let ?q = "q\<lparr> files := files (save_progress_interrupted k p) \<rparr>"
    have pf: "files ?q (PROGRESS_FILE (config ?q)) =
                files (save_progress_interrupted k p) (PROGRESS_FILE (config p))"
      using q by simp
    show ?thesis
    proof (cases "k = 0")
      case True
      then show ?thesis by (simp add: files_interrupted)
    next
      case False
      show ?thesis
      proof (cases "k = 1 \<or> k = 3 \<and> backup_file (shd (stl (clock p))) = PROGRESS_FILE (config p)")
        case True
        with False pf have "files ?q (PROGRESS_FILE (config ?q)) = Some Not_json"
          by (simp only: progress_file_interrupted if_True if_False)
        from load_not_json [OF this] show ?thesis by simp
      next
        case nt: False
        with False pf have "files ?q (PROGRESS_FILE (config ?q))
            = Some (Checkpoint (progress_data p (shd (clock p))))"
          by (simp only: progress_file_interrupted if_True if_False)
        from load_checkpoint [OF this] show ?thesis by simp
      qed
    qed
  qed
  from a b c d show ?thesis by blast
qed


theorem C2_save_in_place_witness:
  "PROGRESS_FILE (config (fresh_parser (sconst Timeout))) = PROGRESS_FILE (config mid_crawl)
   \<and> files (save_progress mid_crawl) (PROGRESS_FILE (config mid_crawl))
       = Some (Checkpoint (progress_data mid_crawl 0))
   \<and> ((1::nat) = 0 \<and> files (save_progress_interrupted 1 mid_crawl) = files mid_crawl
       \<or> load_progress ((fresh_parser (sconst Timeout))\<lparr> files := files (save_progress_interrupted 1 mid_crawl) \<rparr>)
           = (fresh_parser (sconst Timeout))\<lparr> files := files (save_progress_interrupted 1 mid_crawl) \<rparr>
       \<or> load_progress ((fresh_parser (sconst Timeout))\<lparr> files := files (save_progress_interrupted 1 mid_crawl) \<rparr>)
           = (fresh_parser (sconst Timeout))\<lparr> files := files (save_progress_interrupted 1 mid_crawl),
                processed_hotels := processed_hotels mid_crawl, processed_pages := processed_pages mid_crawl,
                results := results mid_crawl, total_requests := total_requests mid_crawl,
                blocked_count := blocked_count mid_crawl \<rparr>)"
proof -
  have h: "PROGRESS_FILE (config (fresh_parser (sconst Timeout))) = PROGRESS_FILE (config mid_crawl)"
    by (simp add: fresh_parser_def init_def)
  from C2_save_in_place [of mid_crawl] h show ?thesis
    by (simp only: mid_crawl_fields siterate.simps id_apply)
qed

section \<open>Duplicate reviews in the export\<close>

lemma filter_drop_duplicates_last:
  "filter (\<lambda>r. review_id r = k) (drop_duplicates_last rs) =
     (if k \<in> set (map review_id rs) then [last (filter (\<lambda>r. review_id r = k) rs)] else [])"
proof (induction rs)
  case Nil
  then show ?case by simp
next
  case (Cons r rs)
  have ne: "filter (\<lambda>r. review_id r = k) rs \<noteq> []" if "k \<in> set (map review_id rs)"
    using that by (auto simp: filter_empty_conv)
  have em: "filter (\<lambda>r. review_id r = k) rs = []" if "k \<notin> set (map review_id rs)"
    using that by (auto simp: filter_empty_conv)
  show ?case
  proof (cases "review_id r \<in> set (map review_id rs)")
    case True
    then show ?thesis using Cons.IH ne by auto
  next
    case False
    then show ?thesis using Cons.IH ne em by auto
  qed
qed

lemma subseq_drop_duplicates_last: "subseq (drop_duplicates_last rs) rs"
  by (induction rs) auto

text \<open>
  C8: when the result list holds two reviews with the same \<open>review_id\<close> (a string), and no
  later review has that identifier, the rows written by \<open>_save_results\<close> (to the CSV file and to the JSON
  file) contain exactly one review with that identifier, the later one, in the order of
  the result list. The result list itself keeps both: duplicates are removed when the
  rows are written, not when reviews are appended.
\<close>

theorem C8_duplicates_keep_last:
  assumes "results p = xs @ r1 # ys @ r2 # zs"
    and "review_id r1 = Some (PStr k)" and "review_id r2 = Some (PStr k)"
    and "\<forall>r \<in> set zs. review_id r \<noteq> Some (PStr k)"
  shows "\<exists>df. files (save_results p) (OUTPUT_FILE (config p)) = Some (Table df)
            \<and> files (save_results p) (str_replace (ascii ''.csv'') (ascii ''.json'') (OUTPUT_FILE (config p)))
                = Some (Table df)
            \<and> filter (\<lambda>r. review_id r = Some (PStr k)) df = [r2]
            \<and> subseq df (results p)
            \<and> results (save_results p) = xs @ r1 # ys @ r2 # zs"
proof -
  let ?rs = "results p"
  have col: "has_review_id_column ?rs"
    using assms(1,2) by (auto simp: has_review_id_column_def list_ex_iff)
  have "filter (\<lambda>r. review_id r = Some (PStr k)) ?rs
          = filter (\<lambda>r. review_id r = Some (PStr k)) (xs @ r1 # ys) @ [r2]"
    using assms by (simp add: filter_empty_conv)
  then have "last (filter (\<lambda>r. review_id r = Some (PStr k)) ?rs) = r2" by simp
  moreover have "Some (PStr k) \<in> set (map review_id ?rs)"
    using assms(1,2) by force
  ultimately have "filter (\<lambda>r. review_id r = Some (PStr k)) (deduplicated ?rs) = [r2]"
    using col by (simp add: deduplicated_def filter_drop_duplicates_last)
  moreover have "subseq (deduplicated ?rs) ?rs"
    by (simp add: deduplicated_def subseq_drop_duplicates_last)
  moreover have "?rs \<noteq> []" using assms(1) by simp
  ultimately show ?thesis
    using assms(1) by (simp add: save_results_def Let_def)
qed

theorem C8_duplicates_keep_last_witness:
  "results mid_crawl = [] @ review_a # [review_c] @ review_b # []
   \<and> review_id review_a = Some (PStr (ascii ''hotel_000001_review_1_0042''))
   \<and> review_id review_b = Some (PStr (ascii ''hotel_000001_review_1_0042''))
   \<and> files (save_results mid_crawl) (OUTPUT_FILE (config mid_crawl)) = Some (Table [review_c, review_b])
   \<and> (\<exists>df. files (save_results mid_crawl) (OUTPUT_FILE (config mid_crawl)) = Some (Table df)
          \<and> filter (\<lambda>r. review_id r = Some (PStr (ascii ''hotel_000001_review_1_0042''))) df = [review_b])"
proof -
  let ?k = "PStr (ascii ''hotel_000001_review_1_0042'')"
  have a: "results mid_crawl = [] @ review_a # [review_c] @ review_b # []" by simp
  have b: "review_id review_a = Some ?k" by (simp add: review_id_def review_a_def)
  have c: "review_id review_b = Some ?k" by (simp add: review_id_def review_b_def)
  have c': "review_id review_c = Some (PStr (ascii ''hotel_000002_review_1_0007''))"
    by (simp add: review_id_def review_c_def)
  have d: "\<forall>r \<in> set []. review_id r \<noteq> Some ?k" by simp
  have neq: "ascii ''hotel_000002_review_1_0007'' \<noteq> ascii ''hotel_000001_review_1_0042''"
    by (simp add: ascii_def)
  have e: "files (save_results mid_crawl) (OUTPUT_FILE (config mid_crawl)) = Some (Table [review_c, review_b])"
    using neq by (simp add: save_results_def Let_def deduplicated_def has_review_id_column_def b c c')
  from C8_duplicates_keep_last [OF a b c d] a b c e show ?thesis by blast
qed

section \<open>Steps of the hotel loop\<close>

lemma sh_skip:
  "url hotel |\<in>| processed_hotels p \<Longrightarrow>
   scrape_hotels X page_url n i (hotel # rest) p = scrape_hotels X page_url n (i + 1) rest p"
  by simp

lemma sh_zero:
  "\<lbrakk>url hotel |\<notin>| processed_hotels p; reviews_count hotel = 0\<rbrakk> \<Longrightarrow>
   scrape_hotels X page_url n i (hotel # rest) p =
     scrape_hotels X page_url n (i + 1) rest
       (p\<lparr> processed_hotels := finsert (url hotel) (processed_hotels p) \<rparr>)"
  by simp

lemma sh_failed:
  "\<lbrakk>url hotel |\<notin>| processed_hotels p; reviews_count hotel \<noteq> 0;
    make_request (url hotel) (Some page_url) 0 p = (hotel_html, p1); no_html hotel_html\<rbrakk> \<Longrightarrow>
   scrape_hotels X page_url n i (hotel # rest) p = scrape_hotels X page_url n (i + 1) rest p1"
  by simp

lemma sh_raise:
  "\<lbrakk>url hotel |\<notin>| processed_hotels p; reviews_count hotel \<noteq> 0;
    make_request (url hotel) (Some page_url) 0 p = (Some html, p1); \<not> no_html (Some html);
    parse_hotel_page X html hotel \<noteq> [];
    \<not> list_all rating_is_number (parse_hotel_page X html hotel)\<rbrakk> \<Longrightarrow>
   scrape_hotels X page_url n i (hotel # rest) p =
     (Raise TypeError, p1\<lparr> results := results p1 @ parse_hotel_page X html hotel \<rparr>)"
  by (simp add: Let_def)

lemma sh_done:
  "\<lbrakk>url hotel |\<notin>| processed_hotels p; reviews_count hotel \<noteq> 0;
    make_request (url hotel) (Some page_url) 0 p = (Some html, p1); \<not> no_html (Some html);
    parse_hotel_page X html hotel = [] \<or> list_all rating_is_number (parse_hotel_page X html hotel)\<rbrakk> \<Longrightarrow>
   scrape_hotels X page_url n i (hotel # rest) p =
     scrape_hotels X page_url n (i + 1) rest (hotel_done X n i hotel html p1)"
  by (auto simp add: Let_def hotel_done_def)


declare scrape_hotels.simps(2) [simp del]

section \<open>Invariants of the crawl\<close>

lemma make_request_rel:
  assumes run: "make_request u referer n p = (res, p')"
    and sent: "\<And>u referer p. R u referer p (sent u referer p)"
    and counted: "\<And>u referer p.
        R u referer p ((sent u referer p)\<lparr> blocked_count := blocked_count (sent u referer p) + 1 \<rparr>)"
    and retry: "\<And>u referer n p. R u referer p (blocked_next u referer n p)"
    and wait: "\<And>u referer d p. R u referer p (time_sleep d (sent u referer p))"
    and trans: "\<And>u referer a b c. R u referer a b \<Longrightarrow> R u referer b c \<Longrightarrow> R u referer a c"
  shows "R u referer p p'"
  using run
proof (induction u referer n p arbitrary: res p' rule: make_request_attempts_induct)
  case (Attempt u referer n p)
  show ?case
  proof (cases "shd (net p)")
    case (Response r)
    show ?thesis
    proof (cases "is_blocked_response r")
      case True
      show ?thesis
      proof (cases "int n < MAX_RETRIES (config p)")
        case True
        with Response \<open>is_blocked_response r\<close> Attempt.prems
        have "make_request u referer (n + 1) (blocked_next u referer n p) = (res, p')"
          by (simp add: mr_blocked_retry)
        from Attempt.IH(1) [OF Response \<open>is_blocked_response r\<close> True this] retry [of u referer p n]
        show ?thesis by (rule trans [rotated])
      next
        case False
        with Response \<open>is_blocked_response r\<close> Attempt.prems counted [of u referer p]
        show ?thesis by (simp add: mr_blocked_stop)
      qed
    next
      case False
      with Response Attempt.prems sent [of u referer p] show ?thesis
        by (simp add: mr_pass)
    qed
  next
    case Timeout
    show ?thesis
    proof (cases "int n < MAX_RETRIES (config p)")
      case True
      with Timeout Attempt.prems
      have "make_request u referer (n + 1) (time_sleep (2 * (real n + 1)) (sent u referer p)) = (res, p')"
        by (simp add: mr_timeout_retry)
      from Attempt.IH(2) [OF Timeout True this] wait [of u referer p]
      show ?thesis by (rule trans [rotated])
    next
      case False
      with Timeout Attempt.prems sent [of u referer p] show ?thesis
        by (simp add: mr_timeout_stop)
    qed
  next
    case Request_error
    show ?thesis
    proof (cases "int n < MAX_RETRIES (config p)")
      case True
      with Request_error Attempt.prems
      have "make_request u referer (n + 1) (time_sleep (1 * (real n + 1)) (sent u referer p)) = (res, p')"
        by (simp add: mr_error_retry)
      from Attempt.IH(3) [OF Request_error True this] wait [of u referer p]
      show ?thesis by (rule trans [rotated])
    next
      case False
      with Request_error Attempt.prems sent [of u referer p] show ?thesis
        by (simp add: mr_error_stop)
    qed
  qed
qed

lemma make_request_trace:
  assumes "make_request u referer n p = (res, p')"
  shows "\<exists>es. trace p' = trace p @ es \<and> (\<forall>u' r'. Get u' r' \<in> set es \<longrightarrow> u' = u \<and> r' = referer)"
  by (rule make_request_rel [OF assms,
        where R = "\<lambda>u referer p p'. \<exists>es. trace p' = trace p @ es
                      \<and> (\<forall>u' r'. Get u' r' \<in> set es \<longrightarrow> u' = u \<and> r' = referer)"])
     (auto simp: )


lemma crawl_step_refl [simp]: "crawl_step p p"
  by (simp add: crawl_step_def)

lemma crawl_step_trans: "crawl_step a b \<Longrightarrow> crawl_step b c \<Longrightarrow> crawl_step a c"
  unfolding crawl_step_def
proof (elim conjE exE, intro conjI)
  fix es es'
  assume ab: "processed_hotels a |\<subseteq>| processed_hotels b"
    and ta: "trace b = trace a @ es" and tb: "trace c = trace b @ es'"
    and ga: "\<forall>u referer. Get u (Some referer) \<in> set es \<longrightarrow> u |\<notin>| processed_hotels a"
    and gb: "\<forall>u referer. Get u (Some referer) \<in> set es' \<longrightarrow> u |\<notin>| processed_hotels b"
  have "trace c = trace a @ (es @ es')" using ta tb by simp
  moreover have "\<forall>u referer. Get u (Some referer) \<in> set (es @ es') \<longrightarrow> u |\<notin>| processed_hotels a"
    using ga gb ab by auto
  ultimately show "\<exists>es. trace c = trace a @ es
      \<and> (\<forall>u referer. Get u (Some referer) \<in> set es \<longrightarrow> u |\<notin>| processed_hotels a)"
    by blast
qed auto

lemma crawl_step_same_trace:
  "\<lbrakk>config p' = config p; processed_hotels p |\<subseteq>| processed_hotels p';
    processed_pages p |\<subseteq>| processed_pages p'; trace p' = trace p\<rbrakk> \<Longrightarrow> crawl_step p p'"
  by (simp add: crawl_step_def)

lemma crawl_step_sleep:
  "\<lbrakk>config p' = config p; processed_hotels p' = processed_hotels p;
    processed_pages p' = processed_pages p; trace p' = trace p @ [Sleep_uniform_positive a b]\<rbrakk>
   \<Longrightarrow> crawl_step p p'"
  by (simp add: crawl_step_def)

lemma crawl_step_make_request:
  assumes "make_request u referer n p = (res, p')"
    and "referer = None \<or> u |\<notin>| processed_hotels p"
  shows "crawl_step p p'"
proof -
  from make_request_trace [OF assms(1)] obtain es where
    "trace p' = trace p @ es" "\<forall>u' r'. Get u' r' \<in> set es \<longrightarrow> u' = u \<and> r' = referer"
    by blast
  with assms(2) make_request_frame [OF assms(1)] show ?thesis
    by (auto simp: crawl_step_def)
qed

lemma crawl_step_hotel_done: "crawl_step p1 (hotel_done X n i hotel html p1)"
proof -
  let ?reviews = "parse_hotel_page X html hotel"
  let ?p2 = "if ?reviews \<noteq> [] then p1\<lparr> results := results p1 @ ?reviews \<rparr> else p1"
  let ?p3 = "?p2\<lparr> processed_hotels := finsert (url hotel) (processed_hotels ?p2) \<rparr>"
  let ?p4 = "if i mod 10 = 0 then save_results (save_progress ?p3) else ?p3"
  have a: "crawl_step p1 ?p4"
    by (rule crawl_step_same_trace) auto
  have b: "crawl_step ?p4 (hotel_done X n i hotel html p1)"
  proof (cases "i < n")
    case True
    then show ?thesis
      by (intro crawl_step_sleep) (simp_all add: hotel_done_def Let_def del: save_progress_frame save_results_frame)
  next
    case False
    then show ?thesis by (simp add: hotel_done_def Let_def)
  qed
  from a b show ?thesis by (rule crawl_step_trans)
qed


lemma crawl_step_scrape_hotels:
  "scrape_hotels X page_url n i hs p = (out, p') \<Longrightarrow> crawl_step p p'"
proof (induction hs arbitrary: i p)
  case Nil
  then show ?case by simp
next
  case (Cons hotel rest)
  show ?case
  proof (cases "url hotel |\<in>| processed_hotels p")
    case True
    with Cons.prems have "scrape_hotels X page_url n (i + 1) rest p = (out, p')"
      by (simp add: sh_skip)
    then show ?thesis by (rule Cons.IH)
  next
    case new: False
    show ?thesis
    proof (cases "reviews_count hotel = 0")
      case True
      let ?q = "p\<lparr> processed_hotels := finsert (url hotel) (processed_hotels p) \<rparr>"
      from new True Cons.prems have "scrape_hotels X page_url n (i + 1) rest ?q = (out, p')"
        by (simp add: sh_zero)
      then have "crawl_step ?q p'" by (rule Cons.IH)
      moreover have "crawl_step p ?q" by (rule crawl_step_same_trace) auto
      ultimately show ?thesis by (rule crawl_step_trans [rotated])
    next
      case some: False
      obtain hotel_html p1 where mr: "make_request (url hotel) (Some page_url) 0 p = (hotel_html, p1)"
        by (cases "make_request (url hotel) (Some page_url) 0 p")
      from mr new have step1: "crawl_step p p1"
        by (intro crawl_step_make_request) auto
      show ?thesis
      proof (cases "no_html hotel_html")
        case True
        with new some mr Cons.prems have "scrape_hotels X page_url n (i + 1) rest p1 = (out, p')"
          by (simp add: sh_failed)
        then have "crawl_step p1 p'" by (rule Cons.IH)
        with step1 show ?thesis by (rule crawl_step_trans)
      next
        case False
        then obtain html where html: "hotel_html = Some html"
          by (cases hotel_html) (auto simp: no_html_def)
        show ?thesis
        proof (cases "parse_hotel_page X html hotel = []
                      \<or> list_all rating_is_number (parse_hotel_page X html hotel)")
          case True
          with new some mr html False Cons.prems
          have "scrape_hotels X page_url n (i + 1) rest (hotel_done X n i hotel html p1) = (out, p')"
            by (simp add: sh_done)
          then have "crawl_step (hotel_done X n i hotel html p1) p'" by (rule Cons.IH)
          with crawl_step_hotel_done have "crawl_step p1 p'" by (rule crawl_step_trans)
          with step1 show ?thesis by (rule crawl_step_trans)
        next
          case bad: False
          with new some mr html False Cons.prems
          have "p' = p1\<lparr> results := results p1 @ parse_hotel_page X html hotel \<rparr>"
            by (simp add: sh_raise)
          then have "crawl_step p1 p'" by (intro crawl_step_same_trace) auto
          with step1 show ?thesis by (rule crawl_step_trans)
        qed
      qed
    qed
  qed
qed

lemma scrape_page_processed:
  "page_num |\<in>| processed_pages p \<Longrightarrow> scrape_page X page_num p = (Return True, p)"
  by (simp add: scrape_page_def)

lemma crawl_step_scrape_page:
  assumes "scrape_page X page_num p = (out, p')"
  shows "crawl_step p p'"
proof (cases "page_num |\<in>| processed_pages p")
  case True
  with assms show ?thesis by (simp add: scrape_page_processed)
next
  case new: False
  let ?page_url = "get_list_page_url p page_num"
  obtain html p1 where mr: "make_request ?page_url None 0 p = (html, p1)"
    by (cases "make_request ?page_url None 0 p")
  then have step1: "crawl_step p p1"
    by (intro crawl_step_make_request) auto
  show ?thesis
  proof (cases "no_html html")
    case True
    with new mr assms have "p' = p1" by (simp add: scrape_page_def Let_def)
    with step1 show ?thesis by simp
  next
    case False
    let ?hotels = "parse_list_page X (the html) page_num ?page_url"
    show ?thesis
    proof (cases "?hotels = []")
      case True
      with new mr False assms
      have "p' = save_progress (p1\<lparr> processed_pages := finsert page_num (processed_pages p1) \<rparr>)"
        by (simp add: scrape_page_def Let_def)
      then have "crawl_step p1 p'" by (intro crawl_step_same_trace) auto
      with step1 show ?thesis by (rule crawl_step_trans)
    next
      case some: False
      obtain out2 p2 where sh: "scrape_hotels X ?page_url (length ?hotels) 1 ?hotels p1 = (out2, p2)"
        by (cases "scrape_hotels X ?page_url (length ?hotels) 1 ?hotels p1")
      then have step2: "crawl_step p1 p2" by (rule crawl_step_scrape_hotels)
      have "crawl_step p2 p'"
      proof (cases out2)
        case (Return u)
        with new mr False some sh assms
        have "p' = save_results (save_progress
                (p2\<lparr> processed_pages := finsert page_num (processed_pages p2) \<rparr>))"
          by (simp add: scrape_page_def Let_def)
        then show ?thesis by (intro crawl_step_same_trace) auto
      next
        case (Raise e)
        with new mr False some sh assms have "p' = p2"
          by (simp add: scrape_page_def Let_def)
        then show ?thesis by simp
      qed
      with step1 step2 show ?thesis by (blast intro: crawl_step_trans)
    qed
  qed
qed

lemma crawl_step_run_pages:
  "run_pages X end_page pages p = (out, p') \<Longrightarrow> crawl_step p p'"
proof (induction pages arbitrary: p)
  case Nil
  then show ?case by simp
next
  case (Cons page_num rest)
  obtain out1 p1 where sp: "scrape_page X page_num p = (out1, p1)"
    by (cases "scrape_page X page_num p")
  then have step1: "crawl_step p p1" by (rule crawl_step_scrape_page)
  show ?case
  proof (cases out1)
    case (Raise e)
    with sp Cons.prems have "p' = p1" by simp
    with step1 show ?thesis by simp
  next
    case (Return success)
    let ?q = "if page_num < end_page
             then p1\<lparr> trace := trace p1 @
                    [Sleep_uniform_positive
                       (DELAY_BETWEEN_PAGES_MIN (config p1))
                       (DELAY_BETWEEN_PAGES_MAX (config p1))] \<rparr>
             else p1"
    from Return sp Cons.prems have "run_pages X end_page rest ?q = (out, p')" by simp
    then have "crawl_step ?q p'" by (rule Cons.IH)
    moreover have "crawl_step p1 ?q"
      by (cases "page_num < end_page") (auto intro: crawl_step_sleep)
    ultimately show ?thesis using step1 by (blast intro: crawl_step_trans)
  qed
qed

lemma crawl_step_run: "crawl_step p (run X start_page end_page_arg p)"
proof -
  let ?end = "get_default end_page_arg (MAX_PAGES (config p))"
  obtain out p1 where rp: "run_pages X ?end [start_page..?end] p = (out, p1)"
    by (cases "run_pages X ?end [start_page..?end] p")
  then have step1: "crawl_step p p1" by (rule crawl_step_run_pages)
  have "crawl_step p1 (run X start_page end_page_arg p)"
    using rp by (intro crawl_step_same_trace) (auto simp: run_def Let_def split: outcome.splits)
  with step1 show ?thesis by (rule crawl_step_trans)
qed

section \<open>Hotels whose page cannot be fetched\<close>

lemma hotel_ab_fields [simp]:
  "url hotel_a = ascii ''https://otzovik.com/reviews/hotel_a/''"
  "url hotel_b = ascii ''https://otzovik.com/reviews/hotel_b/''"
  "reviews_count hotel_a = 3" "reviews_count hotel_b = 0"
  "parse_list_page page_ab html page_num page_url = [hotel_a, hotel_b]"
  "parse_hotel_page page_ab html hotel = [review_a]"
  by (simp_all add: hotel_a_def hotel_b_def page_ab_def)

lemma hotel_ab_distinct [simp]:
  "ascii ''https://otzovik.com/reviews/hotel_a/'' \<noteq> ascii ''https://otzovik.com/reviews/hotel_b/''"
  by (simp add: ascii_def)

lemma fresh_parser_base [simp]:
  "BASE_URL (config (fresh_parser nw)) = ascii ''https://otzovik.com/travel/hotels/''"
  "DELAY_BETWEEN_HOTELS_MIN (config (fresh_parser nw)) = 3"
  "DELAY_BETWEEN_HOTELS_MAX (config (fresh_parser nw)) = 5"
  "files (fresh_parser nw) = Map.empty"
  by (simp_all add: fresh_parser_def init_def init_config_def set_defaults_def load_progress_def)

lemma no_html_None [simp]: "no_html None"
  by (simp add: no_html_def)

lemma long_page_body [simp]: "\<not> no_html (Some (body long_page))"
  by (simp add: no_html_def long_page_def)

lemma review_a_rating [simp]: "rating_is_number review_a"
  by (simp add: rating_is_number_def review_a_def ascii_def)





section \<open>Processed pages and hotels are skipped\<close>




section \<open>The configuration object\<close>

text \<open>
  C9, as stated, fails: the delay values supplied at construction are not the ones in
  effect. Constructed on the default configuration (request delay from 8, block delay 60),
  the parser holds a configuration with request delay from 3 and block delay 10.
\<close>

theorem C9_counterexample:
  "DELAY_MIN set_defaults = 8
   \<and> DELAY_MIN (config (init set_defaults (sconst Timeout) (sconst 0) Map.empty)) = 3
   \<and> DELAY_AFTER_BLOCK set_defaults = 60
   \<and> DELAY_AFTER_BLOCK (config (init set_defaults (sconst Timeout) (sconst 0) Map.empty)) = 10
   \<and> config (init set_defaults (sconst Timeout) (sconst 0) Map.empty) \<noteq> set_defaults"
proof -
  have a: "DELAY_MIN set_defaults = 8" "DELAY_AFTER_BLOCK set_defaults = 60"
    by (simp_all add: set_defaults_def)
  have b: "DELAY_MIN (config (init set_defaults (sconst Timeout) (sconst 0) Map.empty)) = 3"
    "DELAY_AFTER_BLOCK (config (init set_defaults (sconst Timeout) (sconst 0) Map.empty)) = 10"
    by (simp_all add: init_def init_config_def)
  from a(1) b(1) have "config (init set_defaults (sconst Timeout) (sconst 0) Map.empty) \<noteq> set_defaults"
    by auto
  with a b show ?thesis by simp
qed

text \<open>
  C9, amended: \<open>__init__\<close> assigns the seven delay fields of the configuration object (3.0
  and 5.0 for the six bounds, 10 for the delay after a block), whatever values were
  supplied, and sets \<open>TIMEOUT\<close> to 10 only when the object has none; the retry limit, the two
  caps, the page limit, the base URL and the two file names keep the supplied values.
  After construction the configuration is only read: \<open>run\<close>, \<open>scrape_page\<close>, \<open>make_request\<close>,
  \<open>_save_progress\<close>, \<open>_save_results\<close> and \<open>_load_progress\<close> leave every field as it is.
\<close>

theorem C9_config_after_construction:
  "config (init c network time fs) = init_config c
   \<and> DELAY_MIN (init_config c) = 3 \<and> DELAY_MAX (init_config c) = 5
   \<and> DELAY_BETWEEN_HOTELS_MIN (init_config c) = 3 \<and> DELAY_BETWEEN_HOTELS_MAX (init_config c) = 5
   \<and> DELAY_BETWEEN_PAGES_MIN (init_config c) = 3 \<and> DELAY_BETWEEN_PAGES_MAX (init_config c) = 5
   \<and> DELAY_AFTER_BLOCK (init_config c) = 10
   \<and> TIMEOUT (init_config c) = Some (get_default (TIMEOUT c) 10)
   \<and> MAX_RETRIES (init_config c) = MAX_RETRIES c
   \<and> MAX_HOTELS_PER_PAGE (init_config c) = MAX_HOTELS_PER_PAGE c
   \<and> MAX_REVIEWS_PER_HOTEL (init_config c) = MAX_REVIEWS_PER_HOTEL c
   \<and> MAX_PAGES (init_config c) = MAX_PAGES c
   \<and> BASE_URL (init_config c) = BASE_URL c
   \<and> OUTPUT_FILE (init_config c) = OUTPUT_FILE c
   \<and> PROGRESS_FILE (init_config c) = PROGRESS_FILE c
   \<and> config (run X start_page end_page_arg p) = config p
   \<and> config (snd (scrape_page X page_num p)) = config p
   \<and> config (snd (make_request u referer n p)) = config p
   \<and> config (save_progress p) = config p
   \<and> config (save_results p) = config p
   \<and> config (load_progress p) = config p"
proof -
  have a: "config (init c network time fs) = init_config c" by (simp add: init_def)
  have b: "config (run X start_page end_page_arg p) = config p"
    using crawl_step_run [of p X start_page end_page_arg] by (simp add: crawl_step_def)
  have c: "config (snd (scrape_page X page_num p)) = config p"
    using crawl_step_scrape_page [of X page_num p "fst (scrape_page X page_num p)"]
    by (simp add: crawl_step_def)
  have d: "config (snd (make_request u referer n p)) = config p"
    using make_request_frame [of u referer n p "fst (make_request u referer n p)"] by simp
  from a b c d show ?thesis
    by (simp add: init_config_def get_default_def split: option.splits)
qed

theorem C9_config_after_construction_witness:
  "config (run page_ab 1 (Some 1) (init set_defaults (sconst (Response long_page)) (sconst 0) Map.empty))
     = init_config set_defaults
   \<and> DELAY_MIN (config (run page_ab 1 (Some 1)
         (init set_defaults (sconst (Response long_page)) (sconst 0) Map.empty))) = 3
   \<and> MAX_RETRIES (config (run page_ab 1 (Some 1)
         (init set_defaults (sconst (Response long_page)) (sconst 0) Map.empty))) = 3"
  using C9_config_after_construction [of set_defaults "sconst (Response long_page)" "sconst 0" Map.empty
      page_ab 1 "Some 1" "init set_defaults (sconst (Response long_page)) (sconst 0) Map.empty"]
  by (simp add: set_defaults_def)

end
